theory Spec2Isabelle
  imports Complex_Main
begin

section \<open>Data model\<close>

text \<open>
  The training script \<^verbatim>\<open>train_scripts/train.py\<close> and the evaluation script
  \<^verbatim>\<open>val_scripts/val.py\<close> drive a generator \<open>G\<close> and a discriminator \<open>D\<close>
  through external collaborators (networks, losses, metrics, data loaders, the
  tensorboard writer). The collaborators are black boxes: the values they return are
  parameters of the model, and every call the scripts make to them is an entry of an
  explicit trace. Python floats are abstracted by \<open>real\<close>; Python ints are \<open>int\<close>.
  A tensor is the list of its slices along the batch dimension.
\<close>

datatype py_error = ZeroDivisionError | IndexError | TypeError | UnboundLocalError

record config =
  lambda_adversarial :: real
  lambda_perception :: real
  finetune :: bool
  pretrain_epochs :: int
  num_epochs :: int
  batch_size :: int
  val_test_epoch_interval :: int
  log_interval :: int
  static_val_image :: string
  static_test_image :: string

text \<open>\<^verbatim>\<open>if args.lambda_adversarial:\<close> -- a float is true when it is not zero.\<close>

definition truthy :: "real \<Rightarrow> bool" where
  "truthy x = (x \<noteq> 0)"

text \<open>One batch of the train or validation loader: \<^verbatim>\<open>source, target, filename = batch\<close>.\<close>

record 'a batch =
  source :: "'a list"
  target :: "'a list"
  filename :: "string list"

subsection \<open>The per-step loss dictionary\<close>

text \<open>
  \<^verbatim>\<open>loss_dict = defaultdict(float)\<close> followed by \<^verbatim>\<open>loss_dict[k] += v\<close>: a missing key
  is created with the default \<open>0.0\<close> (at the end of the insertion order), then the
  value is added.
\<close>

type_synonym loss_dict = "(string \<times> real) list"

fun dict_set :: "string \<Rightarrow> real \<Rightarrow> loss_dict \<Rightarrow> loss_dict" where
  "dict_set k v [] = [(k, v)]"
| "dict_set k v ((k', x) # d) = (if k' = k then (k', v) # d else (k', x) # dict_set k v d)"

definition dd_get :: "loss_dict \<Rightarrow> string \<Rightarrow> real" where
  "dd_get d k = (case map_of d k of None \<Rightarrow> 0 | Some x \<Rightarrow> x)"

definition dd_add :: "string \<Rightarrow> real \<Rightarrow> loss_dict \<Rightarrow> loss_dict" where
  "dd_add k v d = dict_set k (dd_get d k + v) d"

definition dict_keys :: "loss_dict \<Rightarrow> string list" where
  "dict_keys d = map fst d"

section \<open>One optimisation step (train.py, lines 148--212)\<close>

text \<open>
  The calls a training step makes on the models, losses, optimisers and schedulers, in
  program order. The two scheduler calls carry the operands of the fractional-epoch
  cursor \<^verbatim>\<open>epoch + i / len(data.train_loader)\<close>: the epoch term, the batch index and
  the loader length.
\<close>

datatype action =
    D_zero_grad
  | G_zero_grad
  | G_forward_detached
  | D_forward_target
  | D_forward_output
  | D_loss_call
  | D_loss_backward
  | D_optimizer_step
  | G_forward
  | G_loss_call bool
  | G_loss_backward
  | PSNR_call
  | G_optimizer_step
  | G_lr_scheduler_step int nat int
  | D_lr_scheduler_step int nat int

text \<open>The actions that touch the discriminator, its loss, optimiser or scheduler.\<close>

fun uses_discriminator :: "action \<Rightarrow> bool" where
  "uses_discriminator D_zero_grad = True"
| "uses_discriminator D_forward_target = True"
| "uses_discriminator D_forward_output = True"
| "uses_discriminator D_loss_call = True"
| "uses_discriminator D_loss_backward = True"
| "uses_discriminator D_optimizer_step = True"
| "uses_discriminator (D_lr_scheduler_step e i n) = True"
| "uses_discriminator (G_loss_call pretrain) = (\<not> pretrain)"
| "uses_discriminator a = False"

text \<open>
  The numbers the collaborators hand back during one training step:
  \<^verbatim>\<open>d_loss.total_loss.item()\<close>, the four \<^verbatim>\<open>g_loss\<close> terms, \<^verbatim>\<open>PSNR(output, target)\<close>
  and the generator output \<^verbatim>\<open>G(source)\<close>.
\<close>

record 'a step_obs =
  d_total :: real
  g_total :: real
  g_adversarial :: real
  g_perception :: real
  g_image :: real
  train_psnr :: real
  g_output :: "'a list"

definition train_step ::
  "config \<Rightarrow> int \<Rightarrow> nat \<Rightarrow> int \<Rightarrow> 'a step_obs \<Rightarrow> action list \<times> loss_dict" where
  "train_step args epoch i n obs =
    (let adv = truthy (lambda_adversarial args);
         update_disc =
           (if adv
            then [D_zero_grad, G_zero_grad, G_forward_detached, D_forward_target,
                  D_forward_output, D_loss_call, D_loss_backward, D_optimizer_step]
            else []);
         d1 = (if adv then dd_add ''d_loss'' (d_total obs) [] else dd_add ''d_loss'' 0 []);
         update_gen =
           [G_zero_grad, G_forward] @
           (if adv then [D_forward_target, D_forward_output, G_loss_call False]
            else [G_loss_call True]) @
           [G_loss_backward, PSNR_call];
         d2 = dd_add ''train_PSNR'' (train_psnr obs) d1;
         schedulers =
           [G_optimizer_step, G_lr_scheduler_step epoch i n] @
           (if adv then [D_lr_scheduler_step (epoch - pretrain_epochs args) i n] else []);
         d3 = dd_add ''g_loss'' (g_total obs) d2;
         d4 = dd_add ''adversarial_loss'' (g_adversarial obs) d3;
         d5 = dd_add ''perception_loss'' (g_perception obs) d4;
         d6 = dd_add ''image_loss'' (g_image obs) d5
     in (update_disc @ update_gen @ schedulers, d6))"

definition step_keys :: "string list" where
  "step_keys = [''d_loss'', ''train_PSNR'', ''g_loss'', ''adversarial_loss'',
                ''perception_loss'', ''image_loss'']"

section \<open>Traces of the training run\<close>

text \<open>
  The variables of \<^verbatim>\<open>main\<close> that the checkpoints record: the loop variable \<^verbatim>\<open>epoch\<close>
  (unbound before the first iteration of the epoch loop), \<^verbatim>\<open>global_step\<close> and the best
  validation loss \<^verbatim>\<open>loss\<close>.
\<close>

record vars =
  v_epoch :: "int option"
  v_global_step :: int
  v_loss :: real

datatype tag = Latest | Best

text \<open>
  The arguments of one call of \<^verbatim>\<open>save_weights\<close>. \<^verbatim>\<open>is_min\<close> and \<^verbatim>\<open>tag\<close> are keyword
  arguments which some call sites omit (\<open>None\<close>: the helper's default applies).
\<close>

record save_call =
  sw_epoch :: int
  sw_global_step :: int
  sw_loss :: real
  sw_is_min :: "bool option"
  sw_tag :: "tag option"

datatype stage = Train | Val | Test

datatype 'a event =
    Bind_epoch int
  | Train_mode
  | Eval_mode
  | Act action
  | Exp_loss_add loss_dict
  | Global_step_add int
  | Log_lr bool
  | Log_train_metrics
  | Log_image stage nat 'a "'a option" 'a
  | Log_text stage nat string
  | Avg_reset
  | Generator_eval "'a list"
  | Avg_add loss_dict
  | Log_val_metrics real real
  | Best_compare real real
  | Log_static_image stage 'a "'a option" 'a
  | Log_static_text stage string
  | Save_weights save_call

text \<open>A history pairs every event with the variables as they stand once it has happened.\<close>

type_synonym 'a history = "('a event \<times> vars) list"

definition stamp :: "vars \<Rightarrow> 'a event list \<Rightarrow> 'a history" where
  "stamp vs evs = map (\<lambda>e. (e, vs)) evs"

text \<open>
  \<^verbatim>\<open>n = np.min([3, args.batch_size]); for e in range(n): ...\<close> (lines 239--265,
  347--365 and 444--459): the images of sample \<open>e\<close> are indexed first, then logged, then
  \<^verbatim>\<open>filename[e]\<close> is read for the text entry. An index past the end raises IndexError.
  The test loop has no target.
\<close>

fun log_samples ::
  "stage \<Rightarrow> nat list \<Rightarrow> 'a list \<Rightarrow> 'a list option \<Rightarrow> 'a list \<Rightarrow> string list
   \<Rightarrow> 'a event list \<times> py_error option" where
  "log_samples st [] src tgt out fns = ([], None)"
| "log_samples st (e # es) src tgt out fns =
     (if e < length src \<and> (case tgt of None \<Rightarrow> True | Some t \<Rightarrow> e < length t) \<and> e < length out
      then (if e < length fns
            then (case log_samples st es src tgt out fns of
                    (evs, err) \<Rightarrow>
                      (Log_image st e (src ! e) (map_option (\<lambda>t. t ! e) tgt) (out ! e)
                         # Log_text st e (fns ! e) # evs, err))
            else ([Log_image st e (src ! e) (map_option (\<lambda>t. t ! e) tgt) (out ! e)],
                  Some IndexError))
      else ([], Some IndexError))"

definition sample_range :: "config \<Rightarrow> nat list" where
  "sample_range args = [0 ..< nat (min 3 (batch_size args))]"

section \<open>The batch loop of one epoch (train.py, lines 141--265)\<close>

text \<open>
  \<open>n\<close> is \<^verbatim>\<open>len(data.train_loader)\<close>, \<open>i\<close> the index \<^verbatim>\<open>enumerate\<close> gives the batch.
  The result is the history of the loop, the variables when it ends and the exception
  that ended it, if one did. The guard of lines 143--146 leaves the loop with \<^verbatim>\<open>break\<close>.
\<close>

definition resume_guard :: "config \<Rightarrow> int \<Rightarrow> int \<Rightarrow> int \<Rightarrow> int \<Rightarrow> bool" where
  "resume_guard args n global_step epoch start_epoch =
     ((global_step + 1) mod (n * batch_size args) = 0 \<and> epoch = start_epoch)"

fun train_batches ::
  "config \<Rightarrow> (nat \<Rightarrow> 'a step_obs) \<Rightarrow> int \<Rightarrow> int \<Rightarrow> int \<Rightarrow> nat \<Rightarrow> 'a batch list \<Rightarrow> vars
   \<Rightarrow> 'a history \<times> vars \<times> py_error option" where
  "train_batches args obs epoch start_epoch n i [] vs = ([], vs, None)"
| "train_batches args obs epoch start_epoch n i (b # bs) vs =
     (if n * batch_size args = 0 then ([], vs, Some ZeroDivisionError)
      else if resume_guard args n (v_global_step vs) epoch start_epoch then ([], vs, None)
      else
        (case train_step args epoch i n (obs i) of
           (acts, ld) \<Rightarrow>
             (let vs' = vs\<lparr>v_global_step := v_global_step vs + batch_size args\<rparr>;
                  h_step = stamp vs (map Act acts @ [Exp_loss_add ld])
                           @ [(Global_step_add (batch_size args), vs')];
                  h_scalars =
                    (if int i mod 10 = 0
                     then stamp vs' [Log_lr (truthy (lambda_adversarial args)), Log_train_metrics]
                     else [])
              in if log_interval args = 0
                 then (h_step @ h_scalars, vs', Some ZeroDivisionError)
                 else
                   (case (if int i mod log_interval args = 0
                          then log_samples Train (sample_range args) (source b) (Some (target b))
                                 (g_output (obs i)) (filename b)
                          else ([], None)) of
                      (imgs, err) \<Rightarrow>
                        (case err of
                           Some x \<Rightarrow> (h_step @ h_scalars @ stamp vs' imgs, vs', Some x)
                         | None \<Rightarrow>
                             (case train_batches args obs epoch start_epoch n (Suc i) bs vs' of
                                (h, vs'', err') \<Rightarrow>
                                  (h_step @ h_scalars @ stamp vs' imgs @ h, vs'', err')))))))"

section \<open>The resume cursor (train.py, lines 97--101; val.py, lines 74--77)\<close>

text \<open>
  \<^verbatim>\<open>load_models\<close> hands back \<^verbatim>\<open>global_step\<close> and \<^verbatim>\<open>start_epoch\<close>. A checkpoint
  without a step count gives a false \<^verbatim>\<open>global_step\<close> (\<open>None\<close>, or \<open>0\<close>):
  \<^verbatim>\<open>if not global_step: global_step = start_epoch * len(data.train_loader) * args.batch_size\<close>,
  then \<^verbatim>\<open>start_epoch = global_step // len(data.train_loader.dataset)\<close>.
\<close>

definition py_not :: "int option \<Rightarrow> bool" where
  "py_not x = (case x of None \<Rightarrow> True | Some v \<Rightarrow> v = 0)"

definition reconstruct_global_step :: "int option \<Rightarrow> int \<Rightarrow> int \<Rightarrow> int \<Rightarrow> int" where
  "reconstruct_global_step global_step start_epoch len_loader bs =
     (if py_not global_step then start_epoch * len_loader * bs
      else (case global_step of Some g \<Rightarrow> g | None \<Rightarrow> 0))"

definition resume_cursor ::
  "int option \<Rightarrow> int \<Rightarrow> int \<Rightarrow> int \<Rightarrow> int \<Rightarrow> py_error + (int \<times> int)" where
  "resume_cursor global_step start_epoch len_loader bs len_dataset =
     (let g = reconstruct_global_step global_step start_epoch len_loader bs
      in if len_dataset = 0 then Inl ZeroDivisionError else Inr (g, g div len_dataset))"

section \<open>Checkpoint and accumulator helpers\<close>

text \<open>
  Modelled from the spec: \<^verbatim>\<open>save_weights\<close> of \<^verbatim>\<open>utils.train_helper\<close>, which is not
  among the sources. The spec's CheckpointManager writes "latest" unconditionally and
  writes "best" only when the caller has determined that the validation loss improved;
  the interruption handler's call, which passes \<^verbatim>\<open>is_min=True\<close>, writes as well. The
  result is the list of checkpoint writes the call performs.
\<close>

definition save_weights :: "save_call \<Rightarrow> save_call list" where
  "save_weights c =
     (if sw_tag c = Some Latest \<or> sw_is_min c = Some True then [c] else [])"

text \<open>
  Modelled from the spec: \<^verbatim>\<open>AvgLoss_with_dict\<close> of \<^verbatim>\<open>utils.train_helper\<close>, which is
  not among the sources. The spec's AverageAccumulator holds the arithmetic mean over
  all folds since the last reset. The argument is the list of dictionaries folded since
  the reset; with no fold the entry keeps the \<open>0.0\<close> it is created with (line 113).
\<close>

definition AvgLoss_with_dict :: "loss_dict list \<Rightarrow> string \<Rightarrow> real" where
  "AvgLoss_with_dict folds k =
     (if folds = [] then 0
      else sum_list (map (\<lambda>d. dd_get d k) folds) / real (length folds))"

section \<open>The validation pass (train.py, lines 296--420)\<close>

text \<open>
  In evaluation mode the collaborators are functions of their arguments:
  \<^verbatim>\<open>G(source)\<close>, \<^verbatim>\<open>g_loss.total_loss.item()\<close> after the call on output and target,
  and \<^verbatim>\<open>PSNR(output, target)\<close>.
\<close>

record 'a evaluator =
  gen :: "'a list \<Rightarrow> 'a list"
  g_loss_total :: "'a list \<Rightarrow> 'a list \<Rightarrow> real"
  PSNR :: "'a list \<Rightarrow> 'a list \<Rightarrow> real"

text \<open>
  \<^verbatim>\<open>filename_static\<close>, \<^verbatim>\<open>source_static\<close>, \<^verbatim>\<open>target_static\<close>, \<^verbatim>\<open>output_static\<close>.
  Before the first match \<^verbatim>\<open>filename_static\<close> is \<^verbatim>\<open>[]\<close> and the other three are
  unbound: that state is \<open>None\<close>.
\<close>

record 'a static =
  filename_static :: "string list"
  source_static :: "'a list"
  target_static :: "'a list"
  output_static :: "'a list"

text \<open>Lines 301--338: the loop over the validation batches.\<close>

fun val_loop ::
  "config \<Rightarrow> 'a evaluator \<Rightarrow> 'a batch list \<Rightarrow> 'a static option \<Rightarrow> loss_dict list
   \<Rightarrow> 'a event list \<times> 'a static option \<times> loss_dict list" where
  "val_loop args ev [] st folds = ([], st, folds)"
| "val_loop args ev (b # bs) st folds =
     (let output = gen ev (source b);
          calls =
            (if truthy (lambda_adversarial args)
             then [Act D_forward_output, Act D_forward_target, Act (G_loss_call False)]
             else [Act (G_loss_call True)]);
          m1 = dd_add ''g_loss'' (g_loss_total ev output (target b)) [];
          st' =
            (if static_val_image args \<in> set (filename b)
             then Some \<lparr>filename_static = filename b, source_static = source b,
                        target_static = target b, output_static = output\<rparr>
             else st);
          m2 = dd_add ''PSNR'' (PSNR ev output (target b)) m1
      in (case val_loop args ev bs st' (folds @ [m2]) of
            (evs, st'', folds') \<Rightarrow>
              (Generator_eval (source b) # calls @ [Act PSNR_call, Avg_add m2] @ evs,
               st'', folds')))"

fun first_index :: "string \<Rightarrow> string list \<Rightarrow> nat option" where
  "first_index x [] = None"
| "first_index x (y # ys) = (if y = x then Some 0 else map_option Suc (first_index x ys))"

text \<open>
  Lines 367--393: \<^verbatim>\<open>for e, filename in enumerate(filename_static)\<close>, stopped by
  \<^verbatim>\<open>break\<close> at the first entry equal to the tracked name. Inside the loop \<^verbatim>\<open>filename\<close>
  is that entry, a string, so \<^verbatim>\<open>filename[e]\<close> of line 390 is its character \<open>e\<close>.
\<close>

definition val_static_export ::
  "config \<Rightarrow> 'a static option \<Rightarrow> 'a event list \<times> py_error option" where
  "val_static_export args st =
     (case st of
        None \<Rightarrow> ([], None)
      | Some s \<Rightarrow>
          (case first_index (static_val_image args) (filename_static s) of
             None \<Rightarrow> ([], None)
           | Some e \<Rightarrow>
               (if e < length (source_static s) \<and> e < length (target_static s)
                   \<and> e < length (output_static s)
                then (let img = Log_static_image Val (source_static s ! e)
                                  (Some (target_static s ! e)) (output_static s ! e)
                      in if e < length (static_val_image args)
                         then ([img, Log_static_text Val [static_val_image args ! e]], None)
                         else ([img], Some IndexError))
                else ([], Some IndexError))))"

text \<open>Lines 399--404.\<close>

definition best_decision :: "real \<Rightarrow> real \<Rightarrow> bool \<times> real" where
  "best_decision avg loss = (if avg < loss then (True, avg) else (False, loss))"

text \<open>
  The pass is entered only when \<^verbatim>\<open>data.val_loader\<close> is true, so the loader has a first
  batch \<open>b\<close>. After the loop \<^verbatim>\<open>source\<close>, \<^verbatim>\<open>target\<close>, \<^verbatim>\<open>output\<close> and \<^verbatim>\<open>filename\<close> are those
  of the last batch.
\<close>

definition val_pass ::
  "config \<Rightarrow> 'a evaluator \<Rightarrow> int \<Rightarrow> 'a batch \<Rightarrow> 'a batch list \<Rightarrow> vars
   \<Rightarrow> 'a history \<times> vars \<times> py_error option" where
  "val_pass args ev epoch b bs vs =
     (case val_loop args ev (b # bs) None [] of
        (evs, st, folds) \<Rightarrow>
          (let lb = last (b # bs);
               avg_g = AvgLoss_with_dict folds ''g_loss'';
               avg_p = AvgLoss_with_dict folds ''PSNR'';
               h1 = stamp vs (Avg_reset # evs @ [Log_val_metrics avg_p avg_g])
           in (case log_samples Val (sample_range args) (source lb) (Some (target lb))
                      (gen ev (source lb)) (filename lb) of
                 (imgs, err) \<Rightarrow>
                   (case err of
                      Some x \<Rightarrow> (h1 @ stamp vs imgs, vs, Some x)
                    | None \<Rightarrow>
                        (case val_static_export args st of
                           (sevs, serr) \<Rightarrow>
                             (case serr of
                                Some x \<Rightarrow> (h1 @ stamp vs (imgs @ sevs), vs, Some x)
                              | None \<Rightarrow>
                                  (case best_decision avg_g (v_loss vs) of
                                     (is_min, loss') \<Rightarrow>
                                       (let vs' = vs\<lparr>v_loss := loss'\<rparr>
                                        in (h1 @ stamp vs (imgs @ sevs)
                                            @ stamp vs'
                                                [Best_compare avg_g (v_loss vs),
                                                 Save_weights
                                                   \<lparr>sw_epoch = epoch,
                                                    sw_global_step = v_global_step vs,
                                                    sw_loss = loss',
                                                    sw_is_min = Some is_min,
                                                    sw_tag = Some Best\<rparr>],
                                            vs', None)))))))))"

section \<open>The test pass (train.py, lines 423--484)\<close>

text \<open>A batch of the test loader: \<^verbatim>\<open>source, filename = batch\<close>.\<close>

record 'a test_batch =
  t_source :: "'a list"
  t_filename :: "string list"

record 'a test_static =
  t_filename_static :: "string list"
  t_source_static :: "'a list"
  t_output_static :: "'a list"

fun test_loop ::
  "config \<Rightarrow> 'a evaluator \<Rightarrow> 'a test_batch list \<Rightarrow> 'a test_static option
   \<Rightarrow> 'a event list \<times> 'a test_static option" where
  "test_loop args ev [] st = ([], st)"
| "test_loop args ev (b # bs) st =
     (let output = gen ev (t_source b);
          st' =
            (if static_test_image args \<in> set (t_filename b)
             then Some \<lparr>t_filename_static = t_filename b, t_source_static = t_source b,
                        t_output_static = output\<rparr>
             else st)
      in (case test_loop args ev bs st' of
            (evs, st'') \<Rightarrow> (Generator_eval (t_source b) # evs, st'')))"

text \<open>Lines 461--482; the text entry is \<^verbatim>\<open>filename_static[e]\<close> here.\<close>

definition test_static_export ::
  "config \<Rightarrow> 'a test_static option \<Rightarrow> 'a event list \<times> py_error option" where
  "test_static_export args st =
     (case st of
        None \<Rightarrow> ([], None)
      | Some s \<Rightarrow>
          (case first_index (static_test_image args) (t_filename_static s) of
             None \<Rightarrow> ([], None)
           | Some e \<Rightarrow>
               (if e < length (t_source_static s) \<and> e < length (t_output_static s)
                then ([Log_static_image Test (t_source_static s ! e) None
                         (t_output_static s ! e),
                       Log_static_text Test (t_filename_static s ! e)], None)
                else ([], Some IndexError))))"

definition test_pass ::
  "config \<Rightarrow> 'a evaluator \<Rightarrow> 'a test_batch \<Rightarrow> 'a test_batch list \<Rightarrow> vars
   \<Rightarrow> 'a history \<times> vars \<times> py_error option" where
  "test_pass args ev b bs vs =
     (case test_loop args ev (b # bs) None of
        (evs, st) \<Rightarrow>
          (let lb = last (b # bs)
           in (case log_samples Test (sample_range args) (t_source lb) None
                      (gen ev (t_source lb)) (t_filename lb) of
                 (imgs, err) \<Rightarrow>
                   (case err of
                      Some x \<Rightarrow> (stamp vs (evs @ imgs), vs, Some x)
                    | None \<Rightarrow>
                        (case test_static_export args st of
                           (sevs, serr) \<Rightarrow> (stamp vs (evs @ imgs @ sevs), vs, serr))))))"

section \<open>The epoch loop (train.py, lines 134--484)\<close>

text \<open>
  What \<^verbatim>\<open>get_dataloaders\<close> returns. \<^verbatim>\<open>len(data.train_loader)\<close> is the number of
  batches, \<^verbatim>\<open>len(data.train_loader.dataset)\<close> the number of samples. The validation
  and test loaders may be absent.
\<close>

record 'a data =
  train_loader :: "'a batch list"
  train_dataset_len :: int
  val_loader :: "'a batch list option"
  test_loader :: "'a test_batch list option"

text \<open>
  The collaborators during training: what a training step of a given epoch and batch
  index observes, and the evaluator that the networks are at the end of a given epoch.
\<close>

record 'a collaborators =
  step_obs_at :: "int \<Rightarrow> nat \<Rightarrow> 'a step_obs"
  evaluator_at :: "int \<Rightarrow> 'a evaluator"

text \<open>
  \<^verbatim>\<open>if data.val_loader:\<close> -- \<^verbatim>\<open>None\<close> is false, and so is a loader of length zero
  (a \<^verbatim>\<open>DataLoader\<close> defines \<^verbatim>\<open>__len__\<close> and no \<^verbatim>\<open>__bool__\<close>). The passes are
  therefore dispatched on the loader having a first batch.
\<close>

definition run_val ::
  "config \<Rightarrow> 'a evaluator \<Rightarrow> int \<Rightarrow> 'a batch list option \<Rightarrow> vars
   \<Rightarrow> 'a history \<times> vars \<times> py_error option" where
  "run_val args ev epoch loader vs =
     (case loader of
        None \<Rightarrow> ([], vs, None)
      | Some [] \<Rightarrow> ([], vs, None)
      | Some (b # bs) \<Rightarrow> val_pass args ev epoch b bs vs)"

definition run_test ::
  "config \<Rightarrow> 'a evaluator \<Rightarrow> 'a test_batch list option \<Rightarrow> vars
   \<Rightarrow> 'a history \<times> vars \<times> py_error option" where
  "run_test args ev loader vs =
     (case loader of
        None \<Rightarrow> ([], vs, None)
      | Some [] \<Rightarrow> ([], vs, None)
      | Some (b # bs) \<Rightarrow> test_pass args ev b bs vs)"

text \<open>Lines 287--484: what follows the "latest" checkpoint of an epoch.\<close>

definition val_and_test ::
  "config \<Rightarrow> 'a data \<Rightarrow> 'a collaborators \<Rightarrow> int \<Rightarrow> vars \<Rightarrow> 'a history \<times> vars \<times> py_error option" where
  "val_and_test args data orc epoch vs =
     (if val_test_epoch_interval args = 0 then ([], vs, Some ZeroDivisionError)
      else if epoch mod val_test_epoch_interval args \<noteq> 0 then ([], vs, None)
      else
        (case run_val args (evaluator_at orc epoch) epoch (val_loader data) vs of
           (hv, vs', err) \<Rightarrow>
             (case err of
                Some x \<Rightarrow> ((Eval_mode, vs) # hv, vs', Some x)
              | None \<Rightarrow>
                  (case run_test args (evaluator_at orc epoch) (test_loader data) vs' of
                     (ht, vs'', err') \<Rightarrow> ((Eval_mode, vs) # hv @ ht, vs'', err')))))"

text \<open>One iteration of \<^verbatim>\<open>for epoch in range(start_epoch, args.num_epochs)\<close>.\<close>

definition epoch_body ::
  "config \<Rightarrow> 'a data \<Rightarrow> 'a collaborators \<Rightarrow> int \<Rightarrow> int \<Rightarrow> vars
   \<Rightarrow> 'a history \<times> vars \<times> py_error option" where
  "epoch_body args data orc start_epoch epoch vs0 =
     (let vs = vs0\<lparr>v_epoch := Some epoch\<rparr>;
          h0 = stamp vs [Bind_epoch epoch, Train_mode]
      in (case train_batches args (step_obs_at orc epoch) epoch start_epoch
                 (int (length (train_loader data))) 0 (train_loader data) vs of
            (h1, vs1, err1) \<Rightarrow>
              (case err1 of
                 Some x \<Rightarrow> (h0 @ h1, vs1, Some x)
               | None \<Rightarrow>
                   (let h2 = stamp vs1
                          [Save_weights
                             \<lparr>sw_epoch = epoch, sw_global_step = v_global_step vs1,
                              sw_loss = v_loss vs1, sw_is_min = None,
                              sw_tag = Some Latest\<rparr>]
                    in (case val_and_test args data orc epoch vs1 of
                          (h3, vs3, err3) \<Rightarrow> (h0 @ h1 @ h2 @ h3, vs3, err3))))))"

fun epochs_loop ::
  "config \<Rightarrow> 'a data \<Rightarrow> 'a collaborators \<Rightarrow> int \<Rightarrow> int list \<Rightarrow> vars
   \<Rightarrow> 'a history \<times> vars \<times> py_error option" where
  "epochs_loop args data orc start_epoch [] vs = ([], vs, None)"
| "epochs_loop args data orc start_epoch (e # es) vs =
     (case epoch_body args data orc start_epoch e vs of
        (h, vs', err) \<Rightarrow>
          (case err of
             Some x \<Rightarrow> (h, vs', Some x)
           | None \<Rightarrow>
               (case epochs_loop args data orc start_epoch es vs' of
                  (h', vs'', err') \<Rightarrow> (h @ h', vs'', err'))))"

text \<open>
  \<^verbatim>\<open>main\<close> from the values \<^verbatim>\<open>load_models\<close> returns: the resume cursor, then the
  epoch loop over \<^verbatim>\<open>range(start_epoch, args.num_epochs)\<close>.
\<close>

definition train_main ::
  "config \<Rightarrow> 'a data \<Rightarrow> 'a collaborators \<Rightarrow> int option \<Rightarrow> int \<Rightarrow> real
   \<Rightarrow> 'a history \<times> vars \<times> py_error option" where
  "train_main args data orc loaded_step loaded_epoch loaded_loss =
     (case resume_cursor loaded_step loaded_epoch (int (length (train_loader data)))
             (batch_size args) (train_dataset_len data) of
        Inl x \<Rightarrow>
          ([], \<lparr>v_epoch = None, v_global_step =
                  reconstruct_global_step loaded_step loaded_epoch
                    (int (length (train_loader data))) (batch_size args),
                v_loss = loaded_loss\<rparr>, Some x)
      | Inr (g, start_epoch) \<Rightarrow>
          epochs_loop args data orc start_epoch [start_epoch .. num_epochs args - 1]
            \<lparr>v_epoch = None, v_global_step = g, v_loss = loaded_loss\<rparr>)"

section \<open>Interruption (train.py, lines 486--504)\<close>

text \<open>
  The handler of \<^verbatim>\<open>KeyboardInterrupt\<close> calls \<^verbatim>\<open>save_weights\<close> once, with the current
  \<^verbatim>\<open>epoch\<close>, \<^verbatim>\<open>global_step\<close> and \<^verbatim>\<open>loss\<close>, \<^verbatim>\<open>is_min=True\<close> and no tag. Reading
  \<^verbatim>\<open>epoch\<close> before the loop has bound it raises UnboundLocalError.
\<close>

definition on_interrupt :: "vars \<Rightarrow> py_error + save_call" where
  "on_interrupt vs =
     (case v_epoch vs of
        None \<Rightarrow> Inl UnboundLocalError
      | Some e \<Rightarrow>
          Inr \<lparr>sw_epoch = e, sw_global_step = v_global_step vs, sw_loss = v_loss vs,
               sw_is_min = Some True, sw_tag = None\<rparr>)"

text \<open>
  A run interrupted once \<open>k\<close> events of its history \<open>h\<close> have happened: the events after
  them do not happen, and the handler runs on the variables as the \<open>k\<close>-th event left
  them (\<open>vs0\<close>, the variables on entry to \<^verbatim>\<open>try\<close>, when \<open>k = 0\<close>). The result is the
  history up to the interruption and the checkpoint writes of the handler.
\<close>

definition vars_after :: "vars \<Rightarrow> 'a history \<Rightarrow> nat \<Rightarrow> vars" where
  "vars_after vs0 h k = (if take k h = [] then vs0 else snd (last (take k h)))"

definition interrupt_at ::
  "vars \<Rightarrow> 'a history \<Rightarrow> nat \<Rightarrow> py_error + ('a history \<times> save_call list)" where
  "interrupt_at vs0 h k =
     (case on_interrupt (vars_after vs0 h k) of
        Inl x \<Rightarrow> Inl x
      | Inr c \<Rightarrow> Inr (take k h, save_weights c))"

section \<open>The evaluation script (val.py)\<close>

text \<open>
  The collaborators of the script: the generator, \<^verbatim>\<open>PSNR\<close> on a batch and
  \<^verbatim>\<open>structural_similarity\<close> on one target and one output image.
\<close>

record 'a val_collaborators =
  vc_gen :: "'a list \<Rightarrow> 'a list"
  vc_PSNR :: "'a list \<Rightarrow> 'a list \<Rightarrow> real"
  vc_ssim :: "'a \<Rightarrow> 'a \<Rightarrow> real"

datatype 'a val_event =
    V_generator "'a list"
  | V_imwrite string 'a
  | V_avg_add loss_dict
  | V_metrics_file int loss_dict

text \<open>
  Lines 46--58: the overrides of the configuration, \<^verbatim>\<open>get_dataloaders(args)\<close> on the
  overridden configuration, and \<^verbatim>\<open>data.val_loader = data.train_loader\<close>.
\<close>

definition val_setup :: "config \<Rightarrow> (config \<Rightarrow> 'a data) \<Rightarrow> config \<times> 'a data" where
  "val_setup args get_dataloaders =
     (let args1 = args\<lparr>lambda_perception := 0, finetune := False, batch_size := 1\<rparr>;
          data = get_dataloaders args1
      in (args1, data\<lparr>val_loader := Some (train_loader data)\<rparr>))"

text \<open>Lines 110--143: \<^verbatim>\<open>for e in range(args.batch_size)\<close> of one validation batch.\<close>

fun val_samples ::
  "nat list \<Rightarrow> 'a val_collaborators \<Rightarrow> 'a list \<Rightarrow> 'a list \<Rightarrow> string list \<Rightarrow> loss_dict
   \<Rightarrow> 'a val_event list \<times> loss_dict \<times> py_error option" where
  "val_samples [] vc tgt out fns md = ([], md, None)"
| "val_samples (e # es) vc tgt out fns md =
     (if e < length tgt \<and> e < length out
      then (let md' = dd_add ''SSIM'' (vc_ssim vc (tgt ! e) (out ! e)) md
            in if e < length fns
               then (case val_samples es vc tgt out fns md' of
                       (evs, md'', err) \<Rightarrow>
                         (V_imwrite (''output_'' @ fns ! e) (out ! e) # evs, md'', err))
               else ([], md', Some IndexError))
      else ([], md, Some IndexError))"

text \<open>Lines 99--151: the loop over the batches of \<^verbatim>\<open>data.val_loader\<close>.\<close>

fun val_batches ::
  "config \<Rightarrow> 'a val_collaborators \<Rightarrow> 'a batch list \<Rightarrow> loss_dict list
   \<Rightarrow> 'a val_event list \<times> loss_dict list \<times> py_error option" where
  "val_batches args vc [] folds = ([], folds, None)"
| "val_batches args vc (b # bs) folds =
     (let output = vc_gen vc (source b);
          m1 = dd_add ''PSNR'' (vc_PSNR vc output (target b)) []
      in (case val_samples [0 ..< nat (batch_size args)] vc (target b) output (filename b) m1 of
            (evs, m2, err) \<Rightarrow>
              (case err of
                 Some x \<Rightarrow> (V_generator (source b) # evs, folds, Some x)
               | None \<Rightarrow>
                   (if batch_size args = 0
                    then (V_generator (source b) # evs, folds, Some ZeroDivisionError)
                    else
                      (let m3 = dict_set ''SSIM''
                                  (dd_get m2 ''SSIM'' / real_of_int (batch_size args)) m2
                       in (case val_batches args vc bs (folds @ [m3]) of
                             (evs', folds', err') \<Rightarrow>
                               (V_generator (source b) # evs @ [V_avg_add m3] @ evs',
                                folds', err')))))))"

text \<open>
  Lines 165--193: the loop over the test batches. Line 185 divides the list
  \<^verbatim>\<open>filename\<close> by a string, which raises TypeError at the first sample.
\<close>

fun val_test_batches ::
  "config \<Rightarrow> 'a val_collaborators \<Rightarrow> 'a test_batch list
   \<Rightarrow> 'a val_event list \<times> py_error option" where
  "val_test_batches args vc [] = ([], None)"
| "val_test_batches args vc (b # bs) =
     (let output = vc_gen vc (t_source b)
      in if nat (batch_size args) = 0
         then (case val_test_batches args vc bs of
                 (evs, err) \<Rightarrow> (V_generator (t_source b) # evs, err))
         else if 0 < length output \<and> 0 < length (t_filename b)
         then ([V_generator (t_source b)], Some TypeError)
         else ([V_generator (t_source b)], Some IndexError))"

text \<open>Lines 95--159: the validation part, entered when \<^verbatim>\<open>data.val_loader\<close> is true.\<close>

definition val_eval ::
  "config \<Rightarrow> 'a val_collaborators \<Rightarrow> int \<Rightarrow> 'a batch list option
   \<Rightarrow> 'a val_event list \<times> py_error option" where
  "val_eval args vc start_epoch loader =
     (case loader of
        None \<Rightarrow> ([], None)
      | Some [] \<Rightarrow> ([], None)
      | Some (b # bs) \<Rightarrow>
          (case val_batches args vc (b # bs) [] of
             (evs, folds, err) \<Rightarrow>
               (case err of
                  Some x \<Rightarrow> (evs, Some x)
                | None \<Rightarrow>
                    (evs @ [V_metrics_file start_epoch
                              [(''PSNR'', AvgLoss_with_dict folds ''PSNR''),
                               (''SSIM'', AvgLoss_with_dict folds ''SSIM'')]], None))))"

definition val_test_eval ::
  "config \<Rightarrow> 'a val_collaborators \<Rightarrow> 'a test_batch list option
   \<Rightarrow> 'a val_event list \<times> py_error option" where
  "val_test_eval args vc loader =
     (case loader of
        None \<Rightarrow> ([], None)
      | Some [] \<Rightarrow> ([], None)
      | Some (b # bs) \<Rightarrow> val_test_batches args vc (b # bs))"

text \<open>
  \<^verbatim>\<open>main\<close> of val.py, from the configuration, \<^verbatim>\<open>get_dataloaders\<close> and the values
  \<^verbatim>\<open>load_models\<close> returns.
\<close>

definition val_main ::
  "config \<Rightarrow> (config \<Rightarrow> 'a data) \<Rightarrow> 'a val_collaborators \<Rightarrow> int option \<Rightarrow> int
   \<Rightarrow> 'a val_event list \<times> py_error option" where
  "val_main args get_dataloaders vc loaded_step loaded_epoch =
     (case val_setup args get_dataloaders of
        (args1, data) \<Rightarrow>
          (case resume_cursor loaded_step loaded_epoch (int (length (train_loader data)))
                  (batch_size args1) (train_dataset_len data) of
             Inl x \<Rightarrow> ([], Some x)
           | Inr (g, start_epoch) \<Rightarrow>
               (case val_eval args1 vc start_epoch (val_loader data) of
                  (evs, err) \<Rightarrow>
                    (case err of
                       Some x \<Rightarrow> (evs, Some x)
                     | None \<Rightarrow>
                         (case val_test_eval args1 vc (test_loader data) of
                            (tevs, terr) \<Rightarrow> (evs @ tevs, terr))))))"

section \<open>Reading a history\<close>

text \<open>
  The batch indices of the training steps a history holds: every step advances the
  generator's schedule exactly once, with its batch index.
\<close>

fun executed_batches :: "'a history \<Rightarrow> nat list" where
  "executed_batches [] = []"
| "executed_batches ((Act (G_lr_scheduler_step e i n), vs) # h) = i # executed_batches h"
| "executed_batches (x # h) = executed_batches h"

text \<open>The calls of \<^verbatim>\<open>save_weights\<close> in a history, and the writes under the "best" tag.\<close>

fun save_calls :: "'a history \<Rightarrow> save_call list" where
  "save_calls [] = []"
| "save_calls ((Save_weights c, vs) # h) = c # save_calls h"
| "save_calls (x # h) = save_calls h"

definition best_writes :: "'a history \<Rightarrow> save_call list" where
  "best_writes h =
     concat (map save_weights (filter (\<lambda>c. sw_tag c = Some Best) (save_calls h)))"

text \<open>The best loss each of these calls records, in the order of the calls.\<close>

definition recorded_losses :: "'a history \<Rightarrow> real list" where
  "recorded_losses h = map sw_loss (save_calls h)"

text \<open>The comparisons of an averaged validation loss with the best loss so far.\<close>

fun comparisons :: "'a history \<Rightarrow> (real \<times> real) list" where
  "comparisons [] = []"
| "comparisons ((Best_compare a l, vs) # h) = (a, l) # comparisons h"
| "comparisons (x # h) = comparisons h"

text \<open>Events other than a checkpoint call or a comparison with the best loss.\<close>

fun quiet :: "'a event \<Rightarrow> bool" where
  "quiet (Save_weights c) = False"
| "quiet (Best_compare a l) = False"
| "quiet e = True"

text \<open>
  The averaged generator loss of a validation pass over a loader: the entry \<^verbatim>\<open>g_loss\<close>
  of the accumulator after the loop of lines 301--338.
\<close>

definition val_avg_g_loss :: "config \<Rightarrow> 'a evaluator \<Rightarrow> 'a batch list \<Rightarrow> real" where
  "val_avg_g_loss args ev loader =
     AvgLoss_with_dict (snd (snd (val_loop args ev loader None []))) ''g_loss''"

text \<open>
  The number of completed training steps in a history (a step is complete when
  \<^verbatim>\<open>global_step += args.batch_size\<close> has run), and the epoch that the loop variable
  \<^verbatim>\<open>epoch\<close> holds at its end, given what it held at its start.
\<close>

fun steps_done :: "'a history \<Rightarrow> nat" where
  "steps_done [] = 0"
| "steps_done ((Global_step_add d, vs) # h) = Suc (steps_done h)"
| "steps_done (x # h) = steps_done h"

fun current_epoch :: "int option \<Rightarrow> 'a history \<Rightarrow> int option" where
  "current_epoch e [] = e"
| "current_epoch e ((Bind_epoch x, vs) # h) = current_epoch (Some x) h"
| "current_epoch e (y # h) = current_epoch e h"

text \<open>Events that change neither \<^verbatim>\<open>global_step\<close> nor \<^verbatim>\<open>epoch\<close>.\<close>

fun still :: "'a event \<Rightarrow> bool" where
  "still (Global_step_add d) = False"
| "still (Bind_epoch x) = False"
| "still e = True"

text \<open>
  A history is coherent from a step count \<open>g\<close> and an epoch \<open>e\<close>, for a batch size \<open>bs\<close>,
  when the variables stamped on every event are what the events before it and the event
  itself make of \<open>g\<close> and \<open>e\<close>.
\<close>

fun coherent :: "int \<Rightarrow> int \<Rightarrow> int option \<Rightarrow> 'a history \<Rightarrow> bool" where
  "coherent bs g e [] = True"
| "coherent bs g e ((Global_step_add d, vs) # h) =
     (d = bs \<and> v_global_step vs = g + bs \<and> v_epoch vs = e \<and> coherent bs (g + bs) e h)"
| "coherent bs g e ((Bind_epoch x, vs) # h) =
     (v_global_step vs = g \<and> v_epoch vs = Some x \<and> coherent bs g (Some x) h)"
| "coherent bs g e ((ev, vs) # h) =
     (v_global_step vs = g \<and> v_epoch vs = e \<and> coherent bs g e h)"

text \<open>
  A piece of a run from the variables \<open>vs\<close> to the variables \<open>vs'\<close> with history \<open>h\<close>
  follows its counters when \<open>h\<close> is coherent from \<open>vs\<close> and \<open>vs'\<close> holds the step count
  and the epoch that \<open>h\<close> ends with.
\<close>

definition follows :: "int \<Rightarrow> vars \<Rightarrow> 'a history \<Rightarrow> vars \<Rightarrow> bool" where
  "follows bs vs h vs' =
     (coherent bs (v_global_step vs) (v_epoch vs) h
      \<and> v_global_step vs' = v_global_step vs + bs * int (steps_done h)
      \<and> v_epoch vs' = current_epoch (v_epoch vs) h)"

text \<open>The last batch of a loader whose \<^verbatim>\<open>filename\<close> list holds a given name.\<close>

definition last_match :: "string \<Rightarrow> 'a batch list \<Rightarrow> 'a batch option" where
  "last_match name loader = find (\<lambda>b. name \<in> set (filename b)) (rev loader)"

text \<open>
  What a run of the evaluation script did: the batches it fed to the generator, the
  image files it wrote, and the metrics files it wrote.
\<close>

fun generator_inputs :: "'a val_event list \<Rightarrow> 'a list list" where
  "generator_inputs [] = []"
| "generator_inputs (V_generator src # evs) = src # generator_inputs evs"
| "generator_inputs (e # evs) = generator_inputs evs"

fun written_images :: "'a val_event list \<Rightarrow> (string \<times> 'a) list" where
  "written_images [] = []"
| "written_images (V_imwrite name img # evs) = (name, img) # written_images evs"
| "written_images (e # evs) = written_images evs"

fun metrics_files :: "'a val_event list \<Rightarrow> (int \<times> loss_dict) list" where
  "metrics_files [] = []"
| "metrics_files (V_metrics_file epoch d # evs) = (epoch, d) # metrics_files evs"
| "metrics_files (e # evs) = metrics_files evs"

text \<open>The arithmetic mean of a list of numbers.\<close>

definition mean :: "real list \<Rightarrow> real" where
  "mean xs = sum_list xs / real (length xs)"

section \<open>Concrete inputs\<close>

text \<open>
  A configuration with the adversarial loss switched on and one pre-training epoch, the
  same configuration with the adversarial loss switched off, and the observations of a
  training step on a batch of ten samples.
\<close>

definition adv_args :: config where
  "adv_args =
     \<lparr>lambda_adversarial = 1, lambda_perception = 1, finetune = False,
      pretrain_epochs = 1, num_epochs = 2, batch_size = 10,
      val_test_epoch_interval = 1, log_interval = 100,
      static_val_image = ''a.png'', static_test_image = ''t.png''\<rparr>"

definition pre_args :: config where
  "pre_args = adv_args\<lparr>lambda_adversarial := 0\<rparr>"

definition obs10 :: "nat step_obs" where
  "obs10 =
     \<lparr>d_total = 2, g_total = 3, g_adversarial = 1, g_perception = 1, g_image = 1,
      train_psnr = 20, g_output = [0, 1, 2, 3, 4, 5, 6, 7, 8, 9]\<rparr>"

text \<open>
  The spec's resume example: a training set of 100 samples in 10 batches of 10, and a
  run resumed at \<^verbatim>\<open>global_step = 50\<close>.
\<close>

definition batch10 :: "nat batch" where
  "batch10 =
     \<lparr>source = [0, 1, 2, 3, 4, 5, 6, 7, 8, 9],
      target = [0, 1, 2, 3, 4, 5, 6, 7, 8, 9],
      filename = [''0.png'', ''1.png'', ''2.png'', ''3.png'', ''4.png'',
                  ''5.png'', ''6.png'', ''7.png'', ''8.png'', ''9.png'']\<rparr>"

definition loader10 :: "nat batch list" where
  "loader10 = [batch10, batch10, batch10, batch10, batch10,
               batch10, batch10, batch10, batch10, batch10]"

definition resumed50 :: vars where
  "resumed50 = \<lparr>v_epoch = Some 0, v_global_step = 50, v_loss = 1\<rparr>"

text \<open>
  A training set of three samples loaded in batches of two (the last batch holds one
  sample), without validation or test loader, trained for two epochs from scratch.
\<close>

definition args3 :: config where
  "args3 = adv_args\<lparr>batch_size := 2\<rparr>"

definition data3 :: "nat data" where
  "data3 =
     \<lparr>train_loader =
        [\<lparr>source = [0, 1], target = [0, 1], filename = [''0.png'', ''1.png'']\<rparr>,
         \<lparr>source = [2], target = [2], filename = [''2.png'']\<rparr>],
      train_dataset_len = 3, val_loader = None, test_loader = None\<rparr>"

definition eval0 :: "nat evaluator" where
  "eval0 = \<lparr>gen = (\<lambda>xs. xs), g_loss_total = (\<lambda>out tgt. 1), PSNR = (\<lambda>out tgt. 20)\<rparr>"

definition collab3 :: "nat collaborators" where
  "collab3 =
     \<lparr>step_obs_at = (\<lambda>epoch i. obs10), evaluator_at = (\<lambda>epoch. eval0)\<rparr>"

definition fresh :: vars where
  "fresh = \<lparr>v_epoch = None, v_global_step = 0, v_loss = 1\<rparr>"

text \<open>
  Two validation batches of one sample each that both carry the tracked file name
  \<^verbatim>\<open>a.png\<close>, with different images, and a validation batch that does not carry it.
\<close>

definition vbatch1 :: "nat batch" where
  "vbatch1 = \<lparr>source = [1], target = [11], filename = [''a.png'']\<rparr>"

definition vbatch2 :: "nat batch" where
  "vbatch2 = \<lparr>source = [2], target = [12], filename = [''a.png'']\<rparr>"

definition vbatch3 :: "nat batch" where
  "vbatch3 = \<lparr>source = [3], target = [13], filename = [''b.png'']\<rparr>"

definition args1 :: config where
  "args1 = adv_args\<lparr>batch_size := 1\<rparr>"

definition best2 :: vars where
  "best2 = \<lparr>v_epoch = Some 0, v_global_step = 3, v_loss = 2\<rparr>"

definition data_val :: "nat data" where
  "data_val = data3\<lparr>val_loader := Some [vbatch1, vbatch2]\<rparr>"

definition data_empty_val :: "nat data" where
  "data_empty_val = data3\<lparr>val_loader := Some []\<rparr>"

text \<open>
  Collaborators of the evaluation script, and a \<^verbatim>\<open>get_dataloaders\<close> that returns a
  training loader of two batches and a validation loader of another batch.
\<close>

definition vcollab :: "nat val_collaborators" where
  "vcollab = \<lparr>vc_gen = (\<lambda>xs. xs), vc_PSNR = (\<lambda>out tgt. 20), vc_ssim = (\<lambda>t out. 1)\<rparr>"

definition get_loaders :: "config \<Rightarrow> nat data" where
  "get_loaders a =
     \<lparr>train_loader = [vbatch1, vbatch2], train_dataset_len = 2,
      val_loader = Some [vbatch3], test_loader = None\<rparr>"

section \<open>Properties of one optimisation step\<close>

lemma dict_set_keys:
  "dict_keys (dict_set k v d)
     = (if k \<in> set (dict_keys d) then dict_keys d else dict_keys d @ [k])"
proof (induction d)
  case Nil
  show ?case by (simp add: dict_keys_def)
next
  case (Cons p d)
  obtain k' x where p: "p = (k', x)" by (cases p)
  show ?case using Cons.IH unfolding p dict_keys_def by (cases "k' = k") auto
qed

lemma dict_set_map_of:
  "map_of (dict_set k v d) k' = (if k' = k then Some v else map_of d k')"
  by (induction d) auto

lemma dd_add_keys:
  "dict_keys (dd_add k v d)
     = (if k \<in> set (dict_keys d) then dict_keys d else dict_keys d @ [k])"
  unfolding dd_add_def by (rule dict_set_keys)

lemma dict_keys_Nil: "dict_keys [] = []"
  by (simp add: dict_keys_def)

lemma dd_add_map_of:
  "map_of (dd_add k v d) k' = (if k' = k then Some (dd_get d k + v) else map_of d k')"
  unfolding dd_add_def by (rule dict_set_map_of)

lemma dd_get_Nil: "dd_get [] k = 0"
  by (simp add: dd_get_def)

lemma train_step_keys: "dict_keys (snd (train_step args epoch i n obs)) = step_keys"
  by (simp add: train_step_def step_keys_def dd_add_keys dict_keys_Nil Let_def)

lemma train_step_uses_discriminator:
  "list_ex uses_discriminator (fst (train_step args epoch i n obs))
     = (lambda_adversarial args \<noteq> 0)"
  by (simp add: train_step_def truthy_def Let_def)

lemma train_step_d_loss:
  "map_of (snd (train_step args epoch i n obs)) ''d_loss''
     = Some (if lambda_adversarial args = 0 then 0 else d_total obs)"
  by (simp add: train_step_def truthy_def dd_add_map_of dd_get_Nil Let_def)

lemma train_step_disc_update:
  "(D_optimizer_step \<in> set (fst (train_step args epoch i n obs)))
     = (lambda_adversarial args \<noteq> 0)"
  by (simp add: train_step_def truthy_def Let_def)

text \<open>
  C1, as the spec states it, fails: in epoch 0 of a run with one pre-training epoch and
  a nonzero adversarial weight, the step runs the discriminator update.
\<close>

theorem C1_pretrain_epoch_uses_discriminator:
  "(0::int) < pretrain_epochs adv_args
   \<and> lambda_adversarial adv_args \<noteq> 0
   \<and> list_ex uses_discriminator (fst (train_step adv_args 0 0 10 obs10))
   \<and> D_optimizer_step \<in> set (fst (train_step adv_args 0 0 10 obs10))"
  by (simp add: train_step_def truthy_def Let_def adv_args_def)

text \<open>
  C1, amended: whether a training step invokes the discriminator is decided by the
  adversarial-loss weight alone. With a nonzero weight every step of every epoch runs
  the discriminator update, also in epochs below \<^verbatim>\<open>pretrain_epochs\<close>; with a zero
  weight no step of any epoch touches the discriminator. The epoch and
  \<^verbatim>\<open>pretrain_epochs\<close> do not enter the decision.
\<close>

theorem C1_mode_is_function_of_weight:
  "list_ex uses_discriminator (fst (train_step args epoch i n obs))
     = (lambda_adversarial args \<noteq> 0)
   \<and> (D_optimizer_step \<in> set (fst (train_step args epoch i n obs)))
     = (lambda_adversarial args \<noteq> 0)
   \<and> list_ex uses_discriminator (fst (train_step (args\<lparr>pretrain_epochs := p\<rparr>) epoch' i' n' obs'))
     = list_ex uses_discriminator (fst (train_step args epoch i n obs))"
  by (simp add: train_step_uses_discriminator train_step_disc_update)

theorem C1_mode_is_function_of_weight_witness:
  "list_ex uses_discriminator (fst (train_step adv_args 0 0 10 obs10))
   \<and> \<not> list_ex uses_discriminator (fst (train_step pre_args 5 0 10 obs10))"
  using C1_mode_is_function_of_weight [of adv_args 0 0 10 obs10 1 0 0 10 obs10]
        C1_mode_is_function_of_weight [of pre_args 5 0 10 obs10 1 0 0 10 obs10]
  by (simp add: adv_args_def pre_args_def)

text \<open>
  C7: a training step with adversarial weight zero performs no discriminator
  computation and its loss dictionary holds exactly \<open>0.0\<close> under \<^verbatim>\<open>d_loss\<close>; the
  dictionary that a step folds into the accumulator has the same keys, in the same
  order, in both modes.
\<close>

theorem C7_pretrain_step_reports_zero_d_loss:
  "dict_keys (snd (train_step args epoch i n obs)) = step_keys
   \<and> (lambda_adversarial args = 0 \<longrightarrow>
        \<not> list_ex uses_discriminator (fst (train_step args epoch i n obs))
        \<and> map_of (snd (train_step args epoch i n obs)) ''d_loss'' = Some 0)"
  by (simp add: train_step_keys train_step_uses_discriminator train_step_d_loss)

theorem C7_pretrain_step_reports_zero_d_loss_witness:
  "lambda_adversarial pre_args = 0
   \<and> dict_keys (snd (train_step pre_args 0 0 10 obs10)) = step_keys
   \<and> \<not> list_ex uses_discriminator (fst (train_step pre_args 0 0 10 obs10))
   \<and> map_of (snd (train_step pre_args 0 0 10 obs10)) ''d_loss'' = Some 0"
  using C7_pretrain_step_reports_zero_d_loss [of pre_args 0 0 10 obs10]
  by (simp add: adv_args_def pre_args_def)


section \<open>Properties of the resume cursor and the resume guard\<close>

text \<open>
  C2, evaluated on the spec's example (10 batches of 10 samples, a run resumed at
  \<^verbatim>\<open>global_step = 50\<close>, so that the resumed epoch is epoch 0): the guard of lines
  143--146 never holds, the loop executes all ten batches, indices 0 to 9, and leaves
  \<^verbatim>\<open>global_step\<close> at 150.
\<close>

theorem C2_resumed_epoch_runs_all_batches:
  "resume_cursor (Some 50) 0 (int (length loader10)) (batch_size adv_args) 100 = Inr (50, 0)
   \<and> (case train_batches adv_args (\<lambda>i. obs10) 0 0 (int (length loader10)) 0 loader10
               resumed50 of
         (h, vs, err) \<Rightarrow> (executed_batches h, v_global_step vs, err))
       = ([0, 1, 2, 3, 4, 5, 6, 7, 8, 9], 150, None)"
  by code_simp

text \<open>
  C3, evaluated on a training set of three samples in batches of two. An epoch is two
  batches and advances \<^verbatim>\<open>global_step\<close> by 4 (lines 99, 144 and 216 count an epoch as
  \<^verbatim>\<open>len(data.train_loader) * args.batch_size\<close>), while line 101 divides by the 3
  samples of the training set. The run is interrupted in epoch 1 with one of its two
  batches done; the handler saves \<^verbatim>\<open>epoch = 1\<close>, \<^verbatim>\<open>global_step = 6\<close>, and the epoch
  derived from that checkpoint is 2, not 1. On the compatibility path a stored epoch 3
  is reconstructed to \<^verbatim>\<open>global_step = 12\<close> and derived back as epoch 4.
\<close>

theorem C3_rederived_epoch_differs:
  "on_interrupt (vars_after fresh (fst (train_main args3 data3 collab3 None 0 1)) 75)
     = Inr \<lparr>sw_epoch = 1, sw_global_step = 6, sw_loss = 1, sw_is_min = Some True,
            sw_tag = None\<rparr>
   \<and> resume_cursor (Some 6) 1 (int (length (train_loader data3))) (batch_size args3)
         (train_dataset_len data3) = Inr (6, 2)
   \<and> resume_cursor None 3 (int (length (train_loader data3))) (batch_size args3)
         (train_dataset_len data3) = Inr (12, 4)"
  by code_simp

text \<open>
  C9: a loaded record without \<^verbatim>\<open>global_step\<close> has it reconstructed as
  \<^verbatim>\<open>start_epoch * len(data.train_loader) * args.batch_size\<close>, and the starting epoch
  is derived from the reconstructed value. A loaded \<^verbatim>\<open>global_step\<close> of 0 takes the
  same path.
\<close>

theorem C9_missing_global_step_reconstructed:
  assumes "N \<noteq> 0"
  shows "reconstruct_global_step None e len_loader bs = e * len_loader * bs
         \<and> resume_cursor None e len_loader bs N
             = Inr (e * len_loader * bs, (e * len_loader * bs) div N)
         \<and> resume_cursor (Some 0) e len_loader bs N = resume_cursor None e len_loader bs N"
  using assms
  by (simp add: resume_cursor_def reconstruct_global_step_def py_not_def Let_def)

theorem C9_missing_global_step_reconstructed_witness:
  "(100::int) \<noteq> 0
   \<and> reconstruct_global_step None 3 10 10 = 300
   \<and> resume_cursor None 3 10 10 100 = Inr (300, 3)"
  using C9_missing_global_step_reconstructed [of 100 3 10 10] by simp

section \<open>Histories without checkpoint events\<close>

lemma save_calls_append: "save_calls (h1 @ h2) = save_calls h1 @ save_calls h2"
  by (induction h1 rule: save_calls.induct) simp_all

lemma comparisons_append: "comparisons (h1 @ h2) = comparisons h1 @ comparisons h2"
  by (induction h1 rule: comparisons.induct) simp_all

lemma quiet_stamp:
  "list_all quiet evs \<Longrightarrow> save_calls (stamp vs evs) = [] \<and> comparisons (stamp vs evs) = []"
proof (induction evs)
  case Nil
  show ?case by (simp add: stamp_def)
next
  case (Cons e evs)
  then show ?case by (cases e) (simp_all add: stamp_def)
qed

lemma quiet_log_samples':
  "log_samples st es src tgt out fns = (evs, err) \<Longrightarrow> list_all quiet evs"
  by (induction es arbitrary: evs err) (auto split: prod.splits if_splits)

lemma quiet_log_samples: "list_all quiet (fst (log_samples st es src tgt out fns))"
  using quiet_log_samples' [of st es src tgt out fns] by (cases "log_samples st es src tgt out fns") simp

lemma quiet_val_loop':
  "val_loop args ev bs st folds = (evs, st', folds') \<Longrightarrow> list_all quiet evs"
  by (induction bs arbitrary: st folds evs st' folds')
     (auto simp: Let_def split: prod.splits if_splits)

lemma quiet_val_loop: "list_all quiet (fst (val_loop args ev bs st folds))"
  using quiet_val_loop' [of args ev bs st folds]
  by (cases "val_loop args ev bs st folds") simp

lemma quiet_val_static_export: "list_all quiet (fst (val_static_export args st))"
  by (simp add: val_static_export_def Let_def split: option.splits)

lemma quiet_test_loop':
  "test_loop args ev bs st = (evs, st') \<Longrightarrow> list_all quiet evs"
  by (induction bs arbitrary: st evs st')
     (auto simp: Let_def split: prod.splits if_splits)

lemma quiet_test_loop: "list_all quiet (fst (test_loop args ev bs st))"
  using quiet_test_loop' [of args ev bs st] by (cases "test_loop args ev bs st") simp

lemma quiet_test_static_export: "list_all quiet (fst (test_static_export args st))"
  by (simp add: test_static_export_def split: option.splits)

lemma quiet_stampD:
  "list_all quiet evs \<Longrightarrow> save_calls (stamp vs evs) = []"
  "list_all quiet evs \<Longrightarrow> comparisons (stamp vs evs) = []"
  using quiet_stamp by blast+

lemma stamp_append: "stamp vs (xs @ ys) = stamp vs xs @ stamp vs ys"
  by (simp add: stamp_def)

lemma stamp_Cons: "stamp vs (x # xs) = (x, vs) # stamp vs xs"
  by (simp add: stamp_def)

lemma stamp_Nil: "stamp vs [] = []"
  by (simp add: stamp_def)

lemma test_pass_quiet:
  assumes "test_pass args ev b bs vs = (h, vs', err)"
  shows "vs' = vs \<and> save_calls h = [] \<and> comparisons h = []"
proof -
  obtain evs st where tl: "test_loop args ev (b # bs) None = (evs, st)"
    by (cases "test_loop args ev (b # bs) None")
  obtain imgs ierr where ls: "log_samples Test (sample_range args) (t_source (last (b # bs))) None
      (gen ev (t_source (last (b # bs)))) (t_filename (last (b # bs))) = (imgs, ierr)"
    by (cases "log_samples Test (sample_range args) (t_source (last (b # bs))) None
      (gen ev (t_source (last (b # bs)))) (t_filename (last (b # bs)))")
  obtain sevs serr where se: "test_static_export args st = (sevs, serr)"
    by (cases "test_static_export args st")
  have q1: "list_all quiet evs" using quiet_test_loop' [OF tl] .
  have q2: "list_all quiet imgs" using quiet_log_samples' [OF ls] .
  have q3: "list_all quiet sevs" using quiet_test_static_export [of args st] se by simp
  have eq: "(case ierr of Some x \<Rightarrow> (stamp vs (evs @ imgs), vs, Some x)
             | None \<Rightarrow> (stamp vs (evs @ imgs @ sevs), vs, serr)) = (h, vs', err)"
    using assms by (simp only: test_pass_def Let_def tl ls se prod.case)
  show ?thesis
  proof (cases ierr)
    case None
    with eq have "h = stamp vs (evs @ imgs @ sevs)" "vs' = vs" by auto
    moreover have "list_all quiet (evs @ imgs @ sevs)" using q1 q2 q3 by simp
    ultimately show ?thesis using quiet_stamp by blast
  next
    case (Some x)
    with eq have "h = stamp vs (evs @ imgs)" "vs' = vs" by auto
    moreover have "list_all quiet (evs @ imgs)" using q1 q2 by simp
    ultimately show ?thesis using quiet_stamp by blast
  qed
qed

section \<open>The validation pass and the best loss\<close>

lemma quiet_acts: "list_all quiet (map Act acts)"
  by (induction acts) simp_all

lemma val_pass_result:
  assumes "val_pass args ev epoch b bs vs = (h, vs', err)"
  shows "(err \<noteq> None \<and> vs' = vs \<and> save_calls h = [] \<and> comparisons h = [])
       \<or> (err = None
           \<and> vs' = vs\<lparr>v_loss := snd (best_decision (val_avg_g_loss args ev (b # bs)) (v_loss vs))\<rparr>
           \<and> save_calls h =
                [\<lparr>sw_epoch = epoch, sw_global_step = v_global_step vs,
                  sw_loss = snd (best_decision (val_avg_g_loss args ev (b # bs)) (v_loss vs)),
                  sw_is_min = Some (fst (best_decision (val_avg_g_loss args ev (b # bs)) (v_loss vs))),
                  sw_tag = Some Best\<rparr>]
           \<and> comparisons h = [(val_avg_g_loss args ev (b # bs), v_loss vs)])"
proof -
  define A where "A = val_avg_g_loss args ev (b # bs)"
  obtain evs st folds where vl: "val_loop args ev (b # bs) None [] = (evs, st, folds)"
    by (cases "val_loop args ev (b # bs) None []")
  have A: "AvgLoss_with_dict folds ''g_loss'' = A"
    unfolding A_def val_avg_g_loss_def vl by simp
  obtain imgs ierr where ls: "log_samples Val (sample_range args) (source (last (b # bs)))
      (Some (target (last (b # bs)))) (gen ev (source (last (b # bs)))) (filename (last (b # bs)))
      = (imgs, ierr)"
    by (cases "log_samples Val (sample_range args) (source (last (b # bs)))
      (Some (target (last (b # bs)))) (gen ev (source (last (b # bs)))) (filename (last (b # bs)))")
  obtain sevs serr where se: "val_static_export args st = (sevs, serr)"
    by (cases "val_static_export args st")
  obtain is_min loss' where bd: "best_decision A (v_loss vs) = (is_min, loss')"
    by (cases "best_decision A (v_loss vs)")
  define h1 where "h1 = stamp vs (Avg_reset # evs @ [Log_val_metrics (AvgLoss_with_dict folds ''PSNR'') A])"
  have q1: "list_all quiet (Avg_reset # evs @ [Log_val_metrics (AvgLoss_with_dict folds ''PSNR'') A])"
    using quiet_val_loop' [OF vl] by simp
  have q2: "list_all quiet imgs" using quiet_log_samples' [OF ls] .
  have q3: "list_all quiet sevs" using quiet_val_static_export [of args st] se by simp
  have h1q: "save_calls h1 = []" "comparisons h1 = []"
    unfolding h1_def using quiet_stamp [OF q1] by simp_all
  have eq: "(case ierr of
               Some x \<Rightarrow> (h1 @ stamp vs imgs, vs, Some x)
             | None \<Rightarrow>
                 (case serr of
                    Some x \<Rightarrow> (h1 @ stamp vs (imgs @ sevs), vs, Some x)
                  | None \<Rightarrow>
                      (h1 @ stamp vs (imgs @ sevs)
                        @ stamp (vs\<lparr>v_loss := loss'\<rparr>)
                            [Best_compare A (v_loss vs),
                             Save_weights \<lparr>sw_epoch = epoch, sw_global_step = v_global_step vs,
                               sw_loss = loss', sw_is_min = Some is_min, sw_tag = Some Best\<rparr>],
                       vs\<lparr>v_loss := loss'\<rparr>, None))) = (h, vs', err)"
    using assms
    by (simp only: val_pass_def Let_def vl ls se A bd prod.case h1_def)
  show ?thesis
  proof (cases ierr)
    case (Some x)
    with eq have "h = h1 @ stamp vs imgs" "vs' = vs" "err = Some x" by auto
    then show ?thesis
      using h1q quiet_stamp [OF q2] by (simp add: save_calls_append comparisons_append)
  next
    case None
    note i = this
    show ?thesis
    proof (cases serr)
      case (Some x)
      with eq i have "h = h1 @ stamp vs (imgs @ sevs)" "vs' = vs" "err = Some x" by auto
      moreover have "list_all quiet (imgs @ sevs)" using q2 q3 by simp
      ultimately show ?thesis
        using h1q quiet_stamp [of "imgs @ sevs"]
        by (simp add: save_calls_append comparisons_append)
    next
      case None
      with eq i have h: "h = h1 @ stamp vs (imgs @ sevs)
                        @ stamp (vs\<lparr>v_loss := loss'\<rparr>)
                            [Best_compare A (v_loss vs),
                             Save_weights \<lparr>sw_epoch = epoch, sw_global_step = v_global_step vs,
                               sw_loss = loss', sw_is_min = Some is_min, sw_tag = Some Best\<rparr>]"
        and v: "vs' = vs\<lparr>v_loss := loss'\<rparr>" and e: "err = None" by auto
      have q: "list_all quiet (imgs @ sevs)" using q2 q3 by simp
      have "save_calls h = [\<lparr>sw_epoch = epoch, sw_global_step = v_global_step vs,
                               sw_loss = loss', sw_is_min = Some is_min, sw_tag = Some Best\<rparr>]"
        unfolding h using h1q quiet_stamp [OF q]
        by (simp add: save_calls_append stamp_def)
      moreover have "comparisons h = [(A, v_loss vs)]"
        unfolding h using h1q quiet_stamp [OF q]
        by (simp add: comparisons_append stamp_def)
      ultimately show ?thesis
        using v e bd unfolding A_def by simp
    qed
  qed
qed

lemma train_batches_quiet:
  "train_batches args obs epoch se n i bsx vs = (h, vs', err)
   \<Longrightarrow> save_calls h = [] \<and> comparisons h = [] \<and> v_loss vs' = v_loss vs
       \<and> v_epoch vs' = v_epoch vs"
proof (induction args obs epoch se n i bsx vs arbitrary: h vs' err rule: train_batches.induct)
  case (1 args obs epoch start_epoch n i vs)
  then show ?case by simp
next
  case (2 args obs epoch start_epoch n i b bs vs)
  show ?case
  proof (cases "n * batch_size args = 0 \<or> resume_guard args n (v_global_step vs) epoch start_epoch")
    case True
    then show ?thesis using "2.prems" by (auto split: if_splits)
  next
    case False
    obtain acts ld where ts: "train_step args epoch i n (obs i) = (acts, ld)"
      by (cases "train_step args epoch i n (obs i)")
    define vs1 where "vs1 = vs\<lparr>v_global_step := v_global_step vs + batch_size args\<rparr>"
    define hs :: "'a history" where "hs = stamp vs (map Act acts @ [Exp_loss_add ld]) @ [(Global_step_add (batch_size args), vs1)]
       @ (if int i mod 10 = 0 then stamp vs1 [Log_lr (truthy (lambda_adversarial args)), Log_train_metrics] else [])"
    have hsq: "save_calls hs = []" "comparisons hs = []"
      unfolding hs_def
      by (simp_all add: save_calls_append comparisons_append quiet_stampD quiet_acts)
    show ?thesis
    proof (cases "log_interval args = 0")
      case True
      then have "h = hs" "vs' = vs1" using "2.prems" False ts
        by (auto simp: Let_def vs1_def hs_def)
      then show ?thesis using hsq by (simp add: vs1_def)
    next
      case li: False
      obtain imgs ierr where ls: "(if int i mod log_interval args = 0
                          then log_samples Train (sample_range args) (source b) (Some (target b))
                                 (g_output (obs i)) (filename b)
                          else ([], None)) = (imgs, ierr)"
        by (cases "(if int i mod log_interval args = 0
                          then log_samples Train (sample_range args) (source b) (Some (target b))
                                 (g_output (obs i)) (filename b)
                          else ([], None))")
      have qi: "list_all quiet imgs"
        using ls quiet_log_samples' by (auto split: if_splits)
      show ?thesis
      proof (cases ierr)
        case (Some x)
        then have "h = hs @ stamp vs1 imgs" "vs' = vs1" using "2.prems" False ts li ls
          by (auto simp: Let_def vs1_def hs_def)
        then show ?thesis using hsq quiet_stamp [OF qi]
          by (simp add: vs1_def save_calls_append comparisons_append)
      next
        case None
        obtain h2 vs2 err2 where rec: "train_batches args obs epoch start_epoch n (Suc i) bs vs1 = (h2, vs2, err2)"
          by (cases "train_batches args obs epoch start_epoch n (Suc i) bs vs1")
        have eqs: "h = hs @ stamp vs1 imgs @ h2" "vs' = vs2" using "2.prems" False ts li ls None rec
          by (auto simp: Let_def vs1_def [symmetric] hs_def)
        have IH: "save_calls h2 = [] \<and> comparisons h2 = [] \<and> v_loss vs2 = v_loss vs1 \<and> v_epoch vs2 = v_epoch vs1"
          using "2.IH" [OF _ _ ts [symmetric] vs1_def refl refl _ ls [symmetric] None rec] False li by simp
        show ?thesis using eqs IH hsq quiet_stamp [OF qi]
          by (simp add: vs1_def save_calls_append comparisons_append)
      qed
    qed
  qed
qed

lemma best_decision_le: "snd (best_decision a l) \<le> l"
  by (simp add: best_decision_def)

lemma best_decision_min: "snd (best_decision a l) = min a l"
  by (simp add: best_decision_def min_def)

lemma best_decision_flag: "fst (best_decision a l) = (a < l)"
  by (simp add: best_decision_def)

lemma run_test_quiet:
  assumes "run_test args ev loader vs = (h, vs', err)"
  shows "vs' = vs \<and> save_calls h = [] \<and> comparisons h = []"
proof (cases loader)
  case None
  then show ?thesis using assms by (simp add: run_test_def)
next
  case (Some l)
  show ?thesis
  proof (cases l)
    case Nil
    then show ?thesis using assms Some by (simp add: run_test_def)
  next
    case (Cons b bs)
    then have "test_pass args ev b bs vs = (h, vs', err)"
      using assms Some by (simp add: run_test_def)
    then show ?thesis by (rule test_pass_quiet)
  qed
qed

lemma run_val_skipped:
  "loader = None \<or> loader = Some [] \<Longrightarrow> run_val args ev epoch loader vs = ([], vs, None)"
  by (auto simp: run_val_def)

lemma run_val_result:
  assumes "run_val args ev epoch loader vs = (h, vs', err)"
  shows "v_epoch vs' = v_epoch vs \<and> v_global_step vs' = v_global_step vs
         \<and> v_loss vs' \<le> v_loss vs
         \<and> ((vs' = vs \<and> save_calls h = [] \<and> comparisons h = [])
             \<or> (recorded_losses h = [v_loss vs']))"
proof (cases "loader = None \<or> loader = Some []")
  case True
  then show ?thesis using assms run_val_skipped [OF True, of args ev epoch vs] by simp
next
  case False
  then obtain b bs where l: "loader = Some (b # bs)"
    by (cases loader) (auto simp: neq_Nil_conv)
  then have "val_pass args ev epoch b bs vs = (h, vs', err)"
    using assms by (simp add: run_val_def)
  from val_pass_result [OF this] show ?thesis
    by (auto simp: recorded_losses_def best_decision_le)
qed

lemma val_and_test_result:
  assumes "val_and_test args data orc epoch vs = (h, vs', err)"
  shows "v_epoch vs' = v_epoch vs \<and> v_global_step vs' = v_global_step vs
         \<and> v_loss vs' \<le> v_loss vs
         \<and> ((vs' = vs \<and> save_calls h = [] \<and> comparisons h = [])
             \<or> (recorded_losses h = [v_loss vs']))"
proof (cases "val_test_epoch_interval args = 0 \<or> epoch mod val_test_epoch_interval args \<noteq> 0")
  case True
  then show ?thesis using assms by (auto simp: val_and_test_def split: if_splits)
next
  case False
  obtain hv vsv errv where rv:
    "run_val args (evaluator_at orc epoch) epoch (val_loader data) vs = (hv, vsv, errv)"
    by (cases "run_val args (evaluator_at orc epoch) epoch (val_loader data) vs")
  note R = run_val_result [OF rv]
  show ?thesis
  proof (cases errv)
    case (Some x)
    then have "h = (Eval_mode, vs) # hv" "vs' = vsv"
      using assms False rv by (auto simp: val_and_test_def)
    then show ?thesis using R by (auto simp: recorded_losses_def)
  next
    case None
    obtain ht vst errt where rt:
      "run_test args (evaluator_at orc epoch) (test_loader data) vsv = (ht, vst, errt)"
      by (cases "run_test args (evaluator_at orc epoch) (test_loader data) vsv")
    note T = run_test_quiet [OF rt]
    have "h = (Eval_mode, vs) # hv @ ht" "vs' = vst"
      using assms False rv rt None by (auto simp: val_and_test_def)
    then show ?thesis using R T
      by (auto simp: recorded_losses_def save_calls_append comparisons_append)
  qed
qed

lemma val_and_test_skipped:
  assumes "val_and_test args data orc epoch vs = (h, vs', err)"
    and "val_loader data = None \<or> val_loader data = Some []"
  shows "vs' = vs \<and> save_calls h = [] \<and> comparisons h = []"
proof (cases "val_test_epoch_interval args = 0 \<or> epoch mod val_test_epoch_interval args \<noteq> 0")
  case True
  then show ?thesis using assms by (auto simp: val_and_test_def split: if_splits)
next
  case False
  have rv: "run_val args (evaluator_at orc epoch) epoch (val_loader data) vs = ([], vs, None)"
    using run_val_skipped [OF assms(2)] .
  obtain ht vst errt where rt:
    "run_test args (evaluator_at orc epoch) (test_loader data) vs = (ht, vst, errt)"
    by (cases "run_test args (evaluator_at orc epoch) (test_loader data) vs")
  note T = run_test_quiet [OF rt]
  have "h = (Eval_mode, vs) # ht" "vs' = vst"
    using assms(1) False rv rt by (auto simp: val_and_test_def)
  then show ?thesis using T by simp
qed

lemma recorded_losses_append:
  "recorded_losses (h1 @ h2) = recorded_losses h1 @ recorded_losses h2"
  by (simp add: recorded_losses_def save_calls_append)

lemma epoch_body_result:
  assumes "epoch_body args data orc se e vs = (h, vs', err)"
  shows "v_loss vs' \<le> v_loss vs \<and> sorted_wrt (\<ge>) (recorded_losses h)
         \<and> (\<forall>l\<in>set (recorded_losses h). v_loss vs' \<le> l \<and> l \<le> v_loss vs)"
proof -
  define vsb where "vsb = vs\<lparr>v_epoch := Some e\<rparr>"
  define h0 :: "'a history" where "h0 = stamp vsb [Bind_epoch e, Train_mode]"
  have h0: "recorded_losses h0 = []" by (simp add: h0_def recorded_losses_def stamp_def)
  obtain h1 vs1 err1 where tb:
    "train_batches args (step_obs_at orc e) e se (int (length (train_loader data))) 0
       (train_loader data) vsb = (h1, vs1, err1)"
    by (cases "train_batches args (step_obs_at orc e) e se (int (length (train_loader data))) 0
       (train_loader data) vsb")
  from train_batches_quiet [OF tb]
  have h1: "recorded_losses h1 = []" and l1: "v_loss vs1 = v_loss vs"
    by (simp_all add: recorded_losses_def vsb_def)
  show ?thesis
  proof (cases err1)
    case (Some x)
    then have "h = h0 @ h1" "vs' = vs1"
      using assms tb by (auto simp: epoch_body_def Let_def vsb_def h0_def)
    then show ?thesis using h0 h1 l1 by (simp add: recorded_losses_append)
  next
    case None
    obtain h3 vs3 err3 where vt: "val_and_test args data orc e vs1 = (h3, vs3, err3)"
      by (cases "val_and_test args data orc e vs1")
    define h2 :: "'a history" where "h2 = stamp vs1 [Save_weights
                             \<lparr>sw_epoch = e, sw_global_step = v_global_step vs1,
                              sw_loss = v_loss vs1, sw_is_min = None,
                              sw_tag = Some Latest\<rparr>]"
    have h2: "recorded_losses h2 = [v_loss vs]"
      by (simp add: h2_def recorded_losses_def stamp_def l1)
    have "h = h0 @ h1 @ h2 @ h3" "vs' = vs3"
      using assms tb None vt by (auto simp: epoch_body_def Let_def vsb_def h0_def h2_def)
    moreover have "v_loss vs3 \<le> v_loss vs1
         \<and> ((vs3 = vs1 \<and> save_calls h3 = []) \<or> (recorded_losses h3 = [v_loss vs3]))"
      using val_and_test_result [OF vt] by blast
    ultimately show ?thesis using h0 h1 h2 l1
      by (auto simp: recorded_losses_append) (simp_all add: recorded_losses_def)
  qed
qed

lemma epochs_loop_result:
  "epochs_loop args data orc se es vs = (h, vs', err)
   \<Longrightarrow> v_loss vs' \<le> v_loss vs \<and> sorted_wrt (\<ge>) (recorded_losses h)
       \<and> (\<forall>l\<in>set (recorded_losses h). v_loss vs' \<le> l \<and> l \<le> v_loss vs)"
proof (induction es arbitrary: vs h vs' err)
  case Nil
  then show ?case by (simp add: recorded_losses_def)
next
  case (Cons e es)
  obtain h1 vs1 err1 where eb: "epoch_body args data orc se e vs = (h1, vs1, err1)"
    by (cases "epoch_body args data orc se e vs")
  note B = epoch_body_result [OF eb]
  show ?case
  proof (cases err1)
    case (Some x)
    then have "h = h1" "vs' = vs1" using Cons.prems eb by auto
    then show ?thesis using B by simp
  next
    case None
    obtain h2 vs2 err2 where el: "epochs_loop args data orc se es vs1 = (h2, vs2, err2)"
      by (cases "epochs_loop args data orc se es vs1")
    note L = Cons.IH [OF el]
    have "h = h1 @ h2" "vs' = vs2" using Cons.prems eb el None by auto
    then show ?thesis using B L
      by (fastforce simp: recorded_losses_append sorted_wrt_append)
  qed
qed

lemma val_pass_best_writes:
  assumes "val_pass args ev epoch b bs vs = (h, vs', err)"
  shows "best_writes h =
           (if err = None \<and> val_avg_g_loss args ev (b # bs) < v_loss vs
            then [\<lparr>sw_epoch = epoch, sw_global_step = v_global_step vs,
                   sw_loss = val_avg_g_loss args ev (b # bs),
                   sw_is_min = Some True, sw_tag = Some Best\<rparr>]
            else [])"
  using val_pass_result [OF assms]
  by (auto simp: best_writes_def save_weights_def best_decision_def)

text \<open>
  C4: a validation pass compares the averaged generator loss with the best loss exactly
  once when it completes (and not at all when an exception ends it before line 400),
  the call of \<^verbatim>\<open>save_weights\<close> under the "best" tag writes if and only if the average
  is strictly below the best loss so far, at most once per pass, and the best loss
  becomes the minimum of the two. Over any sequence of epochs the best loss that the
  checkpoint calls record never increases.
\<close>

theorem C4_best_checkpoint_decision:
  assumes "val_pass args ev epoch b bs vs = (h, vs', err)"
    and "epochs_loop args' data orc start_epoch es vs0 = (H, VS, ERR)"
  shows "v_loss vs' \<le> v_loss vs
         \<and> length (comparisons h) \<le> 1 \<and> length (best_writes h) \<le> 1
         \<and> (best_writes h \<noteq> []) = (err = None \<and> val_avg_g_loss args ev (b # bs) < v_loss vs)
         \<and> (err = None \<longrightarrow>
              comparisons h = [(val_avg_g_loss args ev (b # bs), v_loss vs)]
              \<and> v_loss vs' = min (val_avg_g_loss args ev (b # bs)) (v_loss vs))
         \<and> sorted_wrt (\<ge>) (v_loss vs0 # recorded_losses H) \<and> v_loss VS \<le> v_loss vs0"
proof -
  note R = val_pass_result [OF assms(1)]
  note W = val_pass_best_writes [OF assms(1)]
  note L = epochs_loop_result [OF assms(2)]
  have 1: "v_loss vs' \<le> v_loss vs" using R by (auto simp: best_decision_le)
  have 2: "length (comparisons h) \<le> 1" using R by auto
  have 3: "length (best_writes h) \<le> 1" using W by simp
  have 4: "(best_writes h \<noteq> []) = (err = None \<and> val_avg_g_loss args ev (b # bs) < v_loss vs)"
    using W by simp
  have 5: "err = None \<longrightarrow>
              comparisons h = [(val_avg_g_loss args ev (b # bs), v_loss vs)]
              \<and> v_loss vs' = min (val_avg_g_loss args ev (b # bs)) (v_loss vs)"
    using R by (auto simp: best_decision_min)
  have 6: "sorted_wrt (\<ge>) (v_loss vs0 # recorded_losses H)" using L by simp
  have 7: "v_loss VS \<le> v_loss vs0" using L by simp
  from 1 2 3 4 5 6 7 show ?thesis by blast
qed

theorem C4_best_checkpoint_decision_witness:
  "snd (snd (val_pass args1 eval0 0 vbatch1 [vbatch2] best2)) = None
   \<and> val_avg_g_loss args1 eval0 [vbatch1, vbatch2] = 1
   \<and> v_loss best2 = 2
   \<and> best_writes (fst (val_pass args1 eval0 0 vbatch1 [vbatch2] best2)) \<noteq> []
   \<and> v_loss (fst (snd (val_pass args1 eval0 0 vbatch1 [vbatch2] best2))) = 1
   \<and> v_loss (fst (snd (epochs_loop args1 data_val collab3 0 [0, 1] best2))) \<le> 2"
proof -
  have p: "val_pass args1 eval0 0 vbatch1 [vbatch2] best2
             = (fst (val_pass args1 eval0 0 vbatch1 [vbatch2] best2),
                fst (snd (val_pass args1 eval0 0 vbatch1 [vbatch2] best2)),
                snd (snd (val_pass args1 eval0 0 vbatch1 [vbatch2] best2)))"
    by simp
  have r: "epochs_loop args1 data_val collab3 0 [0, 1] best2
             = (fst (epochs_loop args1 data_val collab3 0 [0, 1] best2),
                fst (snd (epochs_loop args1 data_val collab3 0 [0, 1] best2)),
                snd (snd (epochs_loop args1 data_val collab3 0 [0, 1] best2)))"
    by simp
  have e: "snd (snd (val_pass args1 eval0 0 vbatch1 [vbatch2] best2)) = None" by code_simp
  have a: "val_avg_g_loss args1 eval0 [vbatch1, vbatch2] = 1" by code_simp
  have l: "v_loss best2 = 2" by (simp add: best2_def)
  from C4_best_checkpoint_decision [OF p r] e a l show ?thesis by simp
qed

lemma epoch_body_skipped:
  assumes "epoch_body args data orc se e vs = (h, vs', err)"
    and "val_loader data = None \<or> val_loader data = Some []"
  shows "v_loss vs' = v_loss vs \<and> best_writes h = [] \<and> comparisons h = []
         \<and> filter (\<lambda>c. sw_tag c = Some Best) (save_calls h) = []"
proof -
  define vsb where "vsb = vs\<lparr>v_epoch := Some e\<rparr>"
  define h0 :: "'a history" where "h0 = stamp vsb [Bind_epoch e, Train_mode]"
  have h0: "save_calls h0 = []" "comparisons h0 = []" by (simp_all add: h0_def stamp_def)
  obtain h1 vs1 err1 where tb:
    "train_batches args (step_obs_at orc e) e se (int (length (train_loader data))) 0
       (train_loader data) vsb = (h1, vs1, err1)"
    by (cases "train_batches args (step_obs_at orc e) e se (int (length (train_loader data))) 0
       (train_loader data) vsb")
  from train_batches_quiet [OF tb]
  have h1: "save_calls h1 = []" "comparisons h1 = []" and l1: "v_loss vs1 = v_loss vs"
    by (simp_all add: vsb_def)
  show ?thesis
  proof (cases err1)
    case (Some x)
    then have "h = h0 @ h1" "vs' = vs1"
      using assms(1) tb by (auto simp: epoch_body_def Let_def vsb_def h0_def)
    then show ?thesis using h0 h1 l1
      by (simp add: best_writes_def save_calls_append comparisons_append)
  next
    case None
    obtain h3 vs3 err3 where vt: "val_and_test args data orc e vs1 = (h3, vs3, err3)"
      by (cases "val_and_test args data orc e vs1")
    define c where "c = \<lparr>sw_epoch = e, sw_global_step = v_global_step vs1,
                              sw_loss = v_loss vs1, sw_is_min = None,
                              sw_tag = Some Latest\<rparr>"
    define h2 :: "'a history" where "h2 = stamp vs1 [Save_weights c]"
    have h2: "save_calls h2 = [c]" "comparisons h2 = []"
      by (simp_all add: h2_def stamp_def)
    have "h = h0 @ h1 @ h2 @ h3" "vs' = vs3"
      using assms(1) tb None vt by (auto simp: epoch_body_def Let_def vsb_def h0_def h2_def c_def)
    moreover note val_and_test_skipped [OF vt assms(2)]
    ultimately show ?thesis using h0 h1 h2 l1
      by (simp add: best_writes_def save_calls_append comparisons_append c_def)
  qed
qed

text \<open>
  C5: with a validation loader that is absent or has no batch, \<^verbatim>\<open>if data.val_loader:\<close>
  is false and the validation pass is skipped: it changes no variable, raises nothing
  and emits no event, and the whole epoch leaves the best loss as it was, compares
  nothing and writes no "best" checkpoint.
\<close>

theorem C5_empty_validation_loader_is_noop:
  assumes "val_loader data = None \<or> val_loader data = Some []"
    and "epoch_body args data orc start_epoch epoch vs = (h, vs', err)"
  shows "run_val args ev epoch (val_loader data) vs1 = ([], vs1, None)
         \<and> v_loss vs' = v_loss vs \<and> best_writes h = [] \<and> comparisons h = []
         \<and> filter (\<lambda>c. sw_tag c = Some Best) (save_calls h) = []"
  using run_val_skipped [OF assms(1)] epoch_body_skipped [OF assms(2) assms(1)] by simp

theorem C5_empty_validation_loader_is_noop_witness:
  "val_loader data_empty_val = Some []
   \<and> run_val args3 eval0 0 (val_loader data_empty_val) best2 = ([], best2, None)
   \<and> v_loss (fst (snd (epoch_body args3 data_empty_val collab3 0 0 best2))) = v_loss best2
   \<and> best_writes (fst (epoch_body args3 data_empty_val collab3 0 0 best2)) = []"
proof -
  have v: "val_loader data_empty_val = None \<or> val_loader data_empty_val = Some []"
    by (simp add: data_empty_val_def)
  have p: "epoch_body args3 data_empty_val collab3 0 0 best2
             = (fst (epoch_body args3 data_empty_val collab3 0 0 best2),
                fst (snd (epoch_body args3 data_empty_val collab3 0 0 best2)),
                snd (snd (epoch_body args3 data_empty_val collab3 0 0 best2)))"
    by simp
  from C5_empty_validation_loader_is_noop [OF v p, where ev = eval0 and ?vs1.0 = best2]
  show ?thesis by (simp add: data_empty_val_def)
qed

section \<open>The tracked validation sample\<close>

lemma find_app:
  "find P (xs @ ys) = (case find P xs of None \<Rightarrow> find P ys | Some x \<Rightarrow> Some x)"
  by (induction xs) simp_all

lemma last_match_Cons:
  "last_match name (b # bs) =
     (case last_match name bs of
        Some x \<Rightarrow> Some x
      | None \<Rightarrow> (if name \<in> set (filename b) then Some b else None))"
  by (simp add: last_match_def find_app split: option.splits)

lemma last_match_None: "(last_match name bs = None) = (\<not> list_ex (\<lambda>b. name \<in> set (filename b)) bs)"
  by (auto simp: last_match_def find_None_iff list_ex_iff)

lemma val_loop_static:
  "fst (snd (val_loop args ev bs st folds)) =
     (case last_match (static_val_image args) bs of
        None \<Rightarrow> st
      | Some b \<Rightarrow> Some \<lparr>filename_static = filename b, source_static = source b,
                         target_static = target b, output_static = gen ev (source b)\<rparr>)"
proof (induction bs arbitrary: st folds)
  case Nil
  show ?case by (simp add: last_match_def)
next
  case (Cons b bs)
  define st' where "st' =
            (if static_val_image args \<in> set (filename b)
             then Some \<lparr>filename_static = filename b, source_static = source b,
                        target_static = target b, output_static = gen ev (source b)\<rparr>
             else st)"
  define m where "m = dd_add ''PSNR'' (PSNR ev (gen ev (source b)) (target b))
                        (dd_add ''g_loss'' (g_loss_total ev (gen ev (source b)) (target b)) [])"
  have "fst (snd (val_loop args ev (b # bs) st folds))
          = fst (snd (val_loop args ev bs st' (folds @ [m])))"
    by (simp add: Let_def st'_def m_def split: prod.splits)
  also have "\<dots> = (case last_match (static_val_image args) bs of
        None \<Rightarrow> st'
      | Some b \<Rightarrow> Some \<lparr>filename_static = filename b, source_static = source b,
                         target_static = target b, output_static = gen ev (source b)\<rparr>)"
    by (rule Cons.IH)
  finally show ?case
    by (simp add: last_match_Cons st'_def split: option.splits)
qed

text \<open>
  C6, as the spec states it, fails: two validation batches carry the tracked name; the
  first holds source 1 and target 11, and the sample exported after the loop is the one
  of the second batch (source 2, target 12, output 2).
\<close>

theorem C6_first_match_does_not_win:
  "static_val_image args1 \<in> set (filename vbatch1)
   \<and> static_val_image args1 \<in> set (filename vbatch2)
   \<and> source vbatch1 = [1] \<and> target vbatch1 = [11]
   \<and> val_static_export args1 (fst (snd (val_loop args1 eval0 [vbatch1, vbatch2] None [])))
       = ([Log_static_image Val 2 (Some 12) 2, Log_static_text Val ''a''], None)"
  by code_simp

text \<open>
  C6, amended: lines 325--329 overwrite the tracked sample at every batch whose
  \<^verbatim>\<open>filename\<close> list holds the tracked name, so after the loop it is the sample of the
  last such batch; the export of lines 367--393 takes the first position of the name
  inside that batch. When no batch holds the name the tracked sample stays unset and
  the export emits nothing and raises nothing.
\<close>

theorem C6_static_sample_is_last_match:
  assumes "val_loop args ev loader None [] = (evs, st, folds)"
  shows "st = (case last_match (static_val_image args) loader of
                 None \<Rightarrow> None
               | Some b \<Rightarrow> Some \<lparr>filename_static = filename b, source_static = source b,
                                  target_static = target b,
                                  output_static = gen ev (source b)\<rparr>)
         \<and> (\<not> list_ex (\<lambda>b. static_val_image args \<in> set (filename b)) loader
              \<longrightarrow> st = None \<and> val_static_export args st = ([], None))
         \<and> (\<forall>b e. last_match (static_val_image args) loader = Some b
                    \<and> first_index (static_val_image args) (filename b) = Some e
                    \<and> e < length (source b) \<and> e < length (target b)
                    \<and> e < length (gen ev (source b)) \<and> e < length (static_val_image args)
              \<longrightarrow> val_static_export args st
                    = ([Log_static_image Val (source b ! e) (Some (target b ! e))
                          (gen ev (source b) ! e),
                        Log_static_text Val [static_val_image args ! e]], None))"
proof -
  have st: "st = (case last_match (static_val_image args) loader of
                 None \<Rightarrow> None
               | Some b \<Rightarrow> Some \<lparr>filename_static = filename b, source_static = source b,
                                  target_static = target b,
                                  output_static = gen ev (source b)\<rparr>)"
    using val_loop_static [of args ev loader None "[]"] assms by simp
  have none: "\<not> list_ex (\<lambda>b. static_val_image args \<in> set (filename b)) loader
              \<longrightarrow> st = None \<and> val_static_export args st = ([], None)"
    using st last_match_None [of "static_val_image args" loader]
    by (auto simp: val_static_export_def)
  have some: "\<forall>b e. last_match (static_val_image args) loader = Some b
                    \<and> first_index (static_val_image args) (filename b) = Some e
                    \<and> e < length (source b) \<and> e < length (target b)
                    \<and> e < length (gen ev (source b)) \<and> e < length (static_val_image args)
              \<longrightarrow> val_static_export args st
                    = ([Log_static_image Val (source b ! e) (Some (target b ! e))
                          (gen ev (source b) ! e),
                        Log_static_text Val [static_val_image args ! e]], None)"
    using st by (auto simp: val_static_export_def Let_def)
  from st none some show ?thesis by blast
qed

theorem C6_static_sample_is_last_match_witness:
  "last_match (static_val_image args1) [vbatch1, vbatch2, vbatch3] = Some vbatch2
   \<and> first_index (static_val_image args1) (filename vbatch2) = Some 0
   \<and> val_static_export args1
        (fst (snd (val_loop args1 eval0 [vbatch1, vbatch2, vbatch3] None [])))
       = ([Log_static_image Val (source vbatch2 ! 0) (Some (target vbatch2 ! 0))
             (gen eval0 (source vbatch2) ! 0),
           Log_static_text Val [static_val_image args1 ! 0]], None)
   \<and> \<not> list_ex (\<lambda>b. static_val_image args1 \<in> set (filename b)) [vbatch3]
   \<and> val_static_export args1 (fst (snd (val_loop args1 eval0 [vbatch3] None [])))
       = ([], None)"
proof -
  have p: "val_loop args1 eval0 [vbatch1, vbatch2, vbatch3] None []
           = (fst (val_loop args1 eval0 [vbatch1, vbatch2, vbatch3] None []),
              fst (snd (val_loop args1 eval0 [vbatch1, vbatch2, vbatch3] None [])),
              snd (snd (val_loop args1 eval0 [vbatch1, vbatch2, vbatch3] None [])))"
    by simp
  have q: "val_loop args1 eval0 [vbatch3] None []
           = (fst (val_loop args1 eval0 [vbatch3] None []),
              fst (snd (val_loop args1 eval0 [vbatch3] None [])),
              snd (snd (val_loop args1 eval0 [vbatch3] None [])))"
    by simp
  have a: "last_match (static_val_image args1) [vbatch1, vbatch2, vbatch3] = Some vbatch2"
    by code_simp
  have b: "first_index (static_val_image args1) (filename vbatch2) = Some 0"
    by code_simp
  have c: "0 < length (source vbatch2) \<and> 0 < length (target vbatch2)
           \<and> 0 < length (gen eval0 (source vbatch2)) \<and> 0 < length (static_val_image args1)"
    by code_simp
  have d: "\<not> list_ex (\<lambda>b. static_val_image args1 \<in> set (filename b)) [vbatch3]"
    by code_simp
  from C6_static_sample_is_last_match [OF p] a b c
  have 1: "val_static_export args1
        (fst (snd (val_loop args1 eval0 [vbatch1, vbatch2, vbatch3] None [])))
       = ([Log_static_image Val (source vbatch2 ! 0) (Some (target vbatch2 ! 0))
             (gen eval0 (source vbatch2) ! 0),
           Log_static_text Val [static_val_image args1 ! 0]], None)"
    by blast
  from C6_static_sample_is_last_match [OF q] d
  have 2: "val_static_export args1 (fst (snd (val_loop args1 eval0 [vbatch3] None [])))
       = ([], None)"
    by blast
  from a b d 1 2 show ?thesis by blast
qed

section \<open>The evaluation script\<close>

lemma generator_inputs_append:
  "generator_inputs (xs @ ys) = generator_inputs xs @ generator_inputs ys"
  by (induction xs rule: generator_inputs.induct) simp_all

lemma written_images_append:
  "written_images (xs @ ys) = written_images xs @ written_images ys"
  by (induction xs rule: written_images.induct) simp_all

lemma metrics_files_append:
  "metrics_files (xs @ ys) = metrics_files xs @ metrics_files ys"
  by (induction xs rule: metrics_files.induct) simp_all

lemma dd_get_dict_set: "dd_get (dict_set k v d) k' = (if k' = k then v else dd_get d k')"
  by (simp add: dd_get_def dict_set_map_of)

lemma dd_get_dd_add: "dd_get (dd_add k v d) k' = (if k' = k then dd_get d k + v else dd_get d k')"
  by (simp add: dd_add_def dd_get_dict_set)

text \<open>One sample per batch: the loop of lines 110--143 runs for \<open>e = 0\<close> only.\<close>

lemma val_samples_one:
  assumes "val_samples [0] vc tgt out fns md = (evs, md', None)"
  shows "evs = [V_imwrite (''output_'' @ fns ! 0) (out ! 0)]
         \<and> md' = dd_add ''SSIM'' (vc_ssim vc (tgt ! 0) (out ! 0)) md"
  using assms by (auto simp: Let_def split: if_splits)

lemma val_batches_one:
  "batch_size args = 1 \<Longrightarrow> val_batches args vc bs folds = (evs, folds', None)
   \<Longrightarrow> generator_inputs evs = map source bs
       \<and> written_images evs
           = map (\<lambda>b. (''output_'' @ filename b ! 0, vc_gen vc (source b) ! 0)) bs
       \<and> metrics_files evs = []
       \<and> map (\<lambda>d. dd_get d ''PSNR'') folds'
           = map (\<lambda>d. dd_get d ''PSNR'') folds
             @ map (\<lambda>b. vc_PSNR vc (vc_gen vc (source b)) (target b)) bs
       \<and> map (\<lambda>d. dd_get d ''SSIM'') folds'
           = map (\<lambda>d. dd_get d ''SSIM'') folds
             @ map (\<lambda>b. vc_ssim vc (target b ! 0) (vc_gen vc (source b) ! 0)) bs"
proof (induction bs arbitrary: folds evs folds')
  case Nil
  then show ?case by simp
next
  case (Cons b bs)
  define out where "out = vc_gen vc (source b)"
  define m1 where "m1 = dd_add ''PSNR'' (vc_PSNR vc out (target b)) []"
  obtain sevs m2 serr where vs: "val_samples [0] vc (target b) out (filename b) m1 = (sevs, m2, serr)"
    by (cases "val_samples [0] vc (target b) out (filename b) m1")
  have r0: "[0 ..< nat (batch_size args)] = [0]" using Cons.prems(1) by simp
  have serr: "serr = None"
    using Cons.prems(2) vs r0
    by (auto simp: Let_def out_def m1_def simp del: val_samples.simps split: option.splits prod.splits)
  note S = val_samples_one [OF vs [unfolded serr]]
  define m3 where "m3 = dict_set ''SSIM'' (dd_get m2 ''SSIM'' / real_of_int (batch_size args)) m2"
  obtain evs2 folds2 err2 where rec: "val_batches args vc bs (folds @ [m3]) = (evs2, folds2, err2)"
    by (cases "val_batches args vc bs (folds @ [m3])")
  have m3': "dict_set ''SSIM'' (dd_get m2 ''SSIM'') m2 = m3"
    using Cons.prems(1) by (simp add: m3_def)
  have eqs: "evs = V_generator (source b) # sevs @ [V_avg_add m3] @ evs2" "folds' = folds2" "err2 = None"
    using Cons.prems vs serr r0 rec
    by (auto simp: Let_def out_def [symmetric] m1_def [symmetric] m3'
             simp del: val_samples.simps)
  note IH = Cons.IH [OF Cons.prems(1) rec [unfolded eqs(3)]]
  have p: "dd_get m3 ''PSNR'' = vc_PSNR vc out (target b)"
    using S by (simp add: m3_def m1_def dd_get_dict_set dd_get_dd_add dd_get_Nil)
  have q: "dd_get m3 ''SSIM'' = vc_ssim vc (target b ! 0) (out ! 0)"
    using S Cons.prems(1) by (simp add: m3_def m1_def dd_get_dict_set dd_get_dd_add dd_get_Nil)
  show ?case
    using IH S p q unfolding eqs
    by (simp add: generator_inputs_append written_images_append metrics_files_append out_def)
qed

lemma val_setup_ignores_val_loader:
  "val_setup args (\<lambda>a. (gd a)\<lparr>val_loader := v\<rparr>) = val_setup args gd"
  by (simp add: val_setup_def Let_def)

lemma AvgLoss_mean:
  "folds \<noteq> [] \<Longrightarrow> AvgLoss_with_dict folds k = mean (map (\<lambda>d. dd_get d k) folds)"
  by (simp add: AvgLoss_with_dict_def mean_def)

text \<open>
  C10: the evaluation script forces \<^verbatim>\<open>batch_size = 1\<close> and \<^verbatim>\<open>lambda_perception = 0.0\<close>
  before it calls \<^verbatim>\<open>get_dataloaders\<close>, and replaces the validation loader by the
  training loader. A validation part that completes has fed exactly the batches of the
  training loader to the generator, has written one image per training batch, and its
  metrics file holds the means of PSNR and SSIM over the training batches; the
  validation loader that \<^verbatim>\<open>get_dataloaders\<close> configured has no influence on the run.
\<close>

theorem C10_evaluation_uses_training_loader:
  assumes "val_setup args gd = (cfg, data)"
    and "val_eval cfg vc se (val_loader data) = (evs, None)"
  shows "batch_size cfg = 1 \<and> lambda_perception cfg = 0
         \<and> data = (gd cfg)\<lparr>val_loader := Some (train_loader (gd cfg))\<rparr>
         \<and> generator_inputs evs = map source (train_loader (gd cfg))
         \<and> written_images evs
             = map (\<lambda>b. (''output_'' @ filename b ! 0, vc_gen vc (source b) ! 0))
                 (train_loader (gd cfg))
         \<and> metrics_files evs
             = (if train_loader (gd cfg) = [] then []
                else [(se,
                       [(''PSNR'', mean (map (\<lambda>b. vc_PSNR vc (vc_gen vc (source b)) (target b))
                                          (train_loader (gd cfg)))),
                        (''SSIM'', mean (map (\<lambda>b. vc_ssim vc (target b ! 0)
                                                   (vc_gen vc (source b) ! 0))
                                          (train_loader (gd cfg))))])])
         \<and> val_main args (\<lambda>a. (gd a)\<lparr>val_loader := v\<rparr>) vc loaded_step loaded_epoch
             = val_main args gd vc loaded_step loaded_epoch"
proof -
  have a1: "cfg = args\<lparr>lambda_perception := 0, finetune := False, batch_size := 1\<rparr>"
    and d: "data = (gd cfg)\<lparr>val_loader := Some (train_loader (gd cfg))\<rparr>"
    using assms(1) by (auto simp: val_setup_def Let_def)
  have b1: "batch_size cfg = 1" and lp: "lambda_perception cfg = 0"
    by (simp_all add: a1)
  define loader where "loader = train_loader (gd cfg)"
  have vl: "val_loader data = Some loader" by (simp add: d loader_def)
  have indep: "val_main args (\<lambda>a. (gd a)\<lparr>val_loader := v\<rparr>) vc loaded_step loaded_epoch
             = val_main args gd vc loaded_step loaded_epoch"
    by (simp add: val_main_def val_setup_ignores_val_loader)
  have body: "generator_inputs evs = map source loader
         \<and> written_images evs
             = map (\<lambda>b. (''output_'' @ filename b ! 0, vc_gen vc (source b) ! 0)) loader
         \<and> metrics_files evs
             = (if loader = [] then []
                else [(se,
                       [(''PSNR'', mean (map (\<lambda>b. vc_PSNR vc (vc_gen vc (source b)) (target b))
                                          loader)),
                        (''SSIM'', mean (map (\<lambda>b. vc_ssim vc (target b ! 0)
                                                   (vc_gen vc (source b) ! 0))
                                          loader))])])"
  proof (cases loader)
    case Nil
    then show ?thesis using assms(2) vl by (simp add: val_eval_def)
  next
    case (Cons b bs)
    obtain evs0 folds err0 where vb: "val_batches cfg vc loader [] = (evs0, folds, err0)"
      by (cases "val_batches cfg vc loader []")
    have e0: "err0 = None" and ev: "evs = evs0 @ [V_metrics_file se
                              [(''PSNR'', AvgLoss_with_dict folds ''PSNR''),
                               (''SSIM'', AvgLoss_with_dict folds ''SSIM'')]]"
      using assms(2) vl vb Cons
      by (auto simp: val_eval_def simp del: val_batches.simps split: option.splits)
    note B = val_batches_one [OF b1 vb [unfolded e0]]
    have "map (\<lambda>d. dd_get d ''PSNR'') folds
            = map (\<lambda>b. vc_PSNR vc (vc_gen vc (source b)) (target b)) loader"
      using B by simp
    then have "length (map (\<lambda>d. dd_get d ''PSNR'') folds)
            = length (map (\<lambda>b. vc_PSNR vc (vc_gen vc (source b)) (target b)) loader)"
      by (rule arg_cong)
    then have len: "length folds = length loader" by simp
    then have ne: "folds \<noteq> []" using Cons by auto
    have p: "AvgLoss_with_dict folds ''PSNR''
              = mean (map (\<lambda>b. vc_PSNR vc (vc_gen vc (source b)) (target b)) loader)"
      using B by (simp add: AvgLoss_mean [OF ne])
    have s: "AvgLoss_with_dict folds ''SSIM''
              = mean (map (\<lambda>b. vc_ssim vc (target b ! 0) (vc_gen vc (source b) ! 0)) loader)"
      using B by (simp add: AvgLoss_mean [OF ne])
    show ?thesis
      using B Cons unfolding ev p s
      by (simp add: generator_inputs_append written_images_append metrics_files_append)
  qed
  from b1 lp d body indep show ?thesis unfolding loader_def by blast
qed

theorem C10_evaluation_uses_training_loader_witness:
  "val_loader (get_loaders (fst (val_setup adv_args get_loaders))) = Some [vbatch3]
   \<and> batch_size (fst (val_setup adv_args get_loaders)) = 1
   \<and> generator_inputs
        (fst (val_eval (fst (val_setup adv_args get_loaders)) vcollab 2
                (val_loader (snd (val_setup adv_args get_loaders)))))
       = [source vbatch1, source vbatch2]
   \<and> written_images
        (fst (val_eval (fst (val_setup adv_args get_loaders)) vcollab 2
                (val_loader (snd (val_setup adv_args get_loaders)))))
       = [(''output_a.png'', 1), (''output_a.png'', 2)]"
proof -
  have p: "val_setup adv_args get_loaders
             = (fst (val_setup adv_args get_loaders), snd (val_setup adv_args get_loaders))"
    by simp
  have e: "snd (val_eval (fst (val_setup adv_args get_loaders)) vcollab 2
                (val_loader (snd (val_setup adv_args get_loaders)))) = None"
    by code_simp
  have q: "val_eval (fst (val_setup adv_args get_loaders)) vcollab 2
                (val_loader (snd (val_setup adv_args get_loaders)))
           = (fst (val_eval (fst (val_setup adv_args get_loaders)) vcollab 2
                (val_loader (snd (val_setup adv_args get_loaders)))), None)"
    using e
    by (cases "val_eval (fst (val_setup adv_args get_loaders)) vcollab 2
                (val_loader (snd (val_setup adv_args get_loaders)))") simp
  have t: "train_loader (get_loaders (fst (val_setup adv_args get_loaders))) = [vbatch1, vbatch2]"
    by (simp add: get_loaders_def)
  have v: "val_loader (get_loaders (fst (val_setup adv_args get_loaders))) = Some [vbatch3]"
    by (simp add: get_loaders_def)
  note C = C10_evaluation_uses_training_loader [OF p q, of None None 0]
  have b: "batch_size (fst (val_setup adv_args get_loaders)) = 1"
    using C by blast
  have g: "generator_inputs
        (fst (val_eval (fst (val_setup adv_args get_loaders)) vcollab 2
                (val_loader (snd (val_setup adv_args get_loaders)))))
       = map source (train_loader (get_loaders (fst (val_setup adv_args get_loaders))))"
    using C by blast
  have w: "written_images
        (fst (val_eval (fst (val_setup adv_args get_loaders)) vcollab 2
                (val_loader (snd (val_setup adv_args get_loaders)))))
       = map (\<lambda>b. (''output_'' @ filename b ! 0, vc_gen vcollab (source b) ! 0))
           (train_loader (get_loaders (fst (val_setup adv_args get_loaders))))"
    using C by blast
  show ?thesis
    unfolding g w t using b v by (simp add: vbatch1_def vbatch2_def vcollab_def)
qed

section \<open>Interruption of the training loop\<close>

text \<open>
  Every piece of the loop follows its counters: the variables stamped on an event hold
  the step count and the epoch that the events up to it make of the values on entry.
\<close>

lemma steps_done_append: "steps_done (h1 @ h2) = steps_done h1 + steps_done h2"
  by (induction h1 rule: steps_done.induct) simp_all

lemma current_epoch_append:
  "current_epoch e (h1 @ h2) = current_epoch (current_epoch e h1) h2"
  by (induction e h1 rule: current_epoch.induct) simp_all

lemma coherent_append:
  "coherent bs g e (h1 @ h2) =
     (coherent bs g e h1
      \<and> coherent bs (g + bs * int (steps_done h1)) (current_epoch e h1) h2)"
  by (induction bs g e h1 rule: coherent.induct) (auto simp: algebra_simps)

lemma coherent_last:
  "coherent bs g e h \<Longrightarrow> h \<noteq> []
   \<Longrightarrow> v_global_step (snd (last h)) = g + bs * int (steps_done h)
       \<and> v_epoch (snd (last h)) = current_epoch e h"
  by (induction bs g e h rule: coherent.induct) (auto simp: algebra_simps)

lemma coherent_take:
  assumes "coherent bs g e h"
  shows "coherent bs g e (take k h)"
proof -
  have "coherent bs g e (take k h @ drop k h)" using assms by simp
  then show ?thesis unfolding coherent_append by blast
qed

lemma still_stamp:
  "list_all still evs \<Longrightarrow> v_global_step vs = g \<Longrightarrow> v_epoch vs = e
   \<Longrightarrow> coherent bs g e (stamp vs evs) \<and> steps_done (stamp vs evs) = 0
       \<and> current_epoch e (stamp vs evs) = e"
proof (induction evs)
  case Nil
  show ?case by (simp add: stamp_def)
next
  case (Cons a evs)
  then show ?case by (cases a) (simp_all add: stamp_def)
qed

lemma still_acts: "list_all still (map Act acts)"
  by (induction acts) simp_all

lemma still_log_samples:
  "log_samples st es src tgt out fns = (evs, err) \<Longrightarrow> list_all still evs"
  by (induction es arbitrary: evs err) (auto split: prod.splits if_splits)

lemma still_val_loop:
  "val_loop args ev bs st folds = (evs, st', folds') \<Longrightarrow> list_all still evs"
  by (induction bs arbitrary: st folds evs st' folds')
     (auto simp: Let_def split: prod.splits if_splits)

lemma still_val_static_export:
  "val_static_export args st = (evs, err) \<Longrightarrow> list_all still evs"
  by (auto simp: val_static_export_def Let_def split: option.splits if_splits)

lemma still_test_loop:
  "test_loop args ev bs st = (evs, st') \<Longrightarrow> list_all still evs"
  by (induction bs arbitrary: st evs st')
     (auto simp: Let_def split: prod.splits if_splits)

lemma still_test_static_export:
  "test_static_export args st = (evs, err) \<Longrightarrow> list_all still evs"
  by (auto simp: test_static_export_def split: option.splits if_splits)

lemma follows_Nil: "follows bs vs [] vs"
  by (simp add: follows_def)

lemma follows_append:
  "follows bs vs h1 vs1 \<Longrightarrow> follows bs vs1 h2 vs2 \<Longrightarrow> follows bs vs (h1 @ h2) vs2"
  by (simp add: follows_def coherent_append steps_done_append current_epoch_append
                algebra_simps)

lemma follows_stamp: "list_all still evs \<Longrightarrow> follows bs vs (stamp vs evs) vs"
  using still_stamp [of evs vs "v_global_step vs" "v_epoch vs" bs]
  by (simp add: follows_def)

lemma follows_loss_source: "follows bs (vs\<lparr>v_loss := l\<rparr>) h vs' = follows bs vs h vs'"
  by (simp add: follows_def)

lemma follows_step:
  "follows bs vs [(Global_step_add bs, vs\<lparr>v_global_step := v_global_step vs + bs\<rparr>)]
     (vs\<lparr>v_global_step := v_global_step vs + bs\<rparr>)"
  by (simp add: follows_def)

lemma follows_bind:
  "follows bs vs (stamp (vs\<lparr>v_epoch := Some e\<rparr>) [Bind_epoch e, Train_mode])
     (vs\<lparr>v_epoch := Some e\<rparr>)"
  by (simp add: follows_def stamp_def)

lemma test_pass_follows:
  assumes "test_pass args ev b bs vs = (h, vs', err)"
  shows "follows n vs h vs'"
proof -
  obtain evs st where tl: "test_loop args ev (b # bs) None = (evs, st)"
    by (cases "test_loop args ev (b # bs) None")
  obtain imgs ierr where ls: "log_samples Test (sample_range args) (t_source (last (b # bs))) None
      (gen ev (t_source (last (b # bs)))) (t_filename (last (b # bs))) = (imgs, ierr)"
    by (cases "log_samples Test (sample_range args) (t_source (last (b # bs))) None
      (gen ev (t_source (last (b # bs)))) (t_filename (last (b # bs)))")
  obtain sevs serr where se: "test_static_export args st = (sevs, serr)"
    by (cases "test_static_export args st")
  have q1: "list_all still evs" using still_test_loop [OF tl] .
  have q2: "list_all still imgs" using still_log_samples [OF ls] .
  have q3: "list_all still sevs" using still_test_static_export [OF se] .
  have eq: "(case ierr of Some x \<Rightarrow> (stamp vs (evs @ imgs), vs, Some x)
             | None \<Rightarrow> (stamp vs (evs @ imgs @ sevs), vs, serr)) = (h, vs', err)"
    using assms by (simp only: test_pass_def Let_def tl ls se prod.case)
  show ?thesis
  proof (cases ierr)
    case None
    with eq have "h = stamp vs (evs @ imgs @ sevs)" "vs' = vs" by auto
    moreover have "list_all still (evs @ imgs @ sevs)" using q1 q2 q3 by simp
    ultimately show ?thesis using follows_stamp by blast
  next
    case (Some x)
    with eq have "h = stamp vs (evs @ imgs)" "vs' = vs" by auto
    moreover have "list_all still (evs @ imgs)" using q1 q2 by simp
    ultimately show ?thesis using follows_stamp by blast
  qed
qed

lemma val_pass_follows:
  assumes "val_pass args ev epoch b bs vs = (h, vs', err)"
  shows "follows n vs h vs'"
proof -
  obtain evs st folds where vl: "val_loop args ev (b # bs) None [] = (evs, st, folds)"
    by (cases "val_loop args ev (b # bs) None []")
  define A where "A = AvgLoss_with_dict folds ''g_loss''"
  obtain imgs ierr where ls: "log_samples Val (sample_range args) (source (last (b # bs)))
      (Some (target (last (b # bs)))) (gen ev (source (last (b # bs)))) (filename (last (b # bs)))
      = (imgs, ierr)"
    by (cases "log_samples Val (sample_range args) (source (last (b # bs)))
      (Some (target (last (b # bs)))) (gen ev (source (last (b # bs)))) (filename (last (b # bs)))")
  obtain sevs serr where se: "val_static_export args st = (sevs, serr)"
    by (cases "val_static_export args st")
  obtain is_min loss' where bd: "best_decision A (v_loss vs) = (is_min, loss')"
    by (cases "best_decision A (v_loss vs)")
  define evs1 :: "'a event list"
    where "evs1 = Avg_reset # evs @ [Log_val_metrics (AvgLoss_with_dict folds ''PSNR'') A]"
  define evs2 :: "'a event list"
    where "evs2 = [Best_compare A (v_loss vs),
                   Save_weights \<lparr>sw_epoch = epoch, sw_global_step = v_global_step vs,
                     sw_loss = loss', sw_is_min = Some is_min, sw_tag = Some Best\<rparr>]"
  have q1: "list_all still evs1" using still_val_loop [OF vl] by (simp add: evs1_def)
  have q2: "list_all still imgs" using still_log_samples [OF ls] .
  have q3: "list_all still sevs" using still_val_static_export [OF se] .
  have q4: "list_all still evs2" by (simp add: evs2_def)
  have eq: "(case ierr of
               Some x \<Rightarrow> (stamp vs evs1 @ stamp vs imgs, vs, Some x)
             | None \<Rightarrow>
                 (case serr of
                    Some x \<Rightarrow> (stamp vs evs1 @ stamp vs (imgs @ sevs), vs, Some x)
                  | None \<Rightarrow>
                      (stamp vs evs1 @ stamp vs (imgs @ sevs)
                        @ stamp (vs\<lparr>v_loss := loss'\<rparr>) evs2,
                       vs\<lparr>v_loss := loss'\<rparr>, None))) = (h, vs', err)"
    using assms
    by (simp only: val_pass_def Let_def vl ls se A_def [symmetric] bd prod.case evs1_def evs2_def)
  have f1: "follows n vs (stamp vs evs1) vs" using follows_stamp [OF q1] .
  have f2: "follows n vs (stamp vs imgs) vs" using follows_stamp [OF q2] .
  have f3: "follows n vs (stamp vs (imgs @ sevs)) vs"
    using follows_stamp [of "imgs @ sevs"] q2 q3 by simp
  have f4: "follows n vs (stamp (vs\<lparr>v_loss := loss'\<rparr>) evs2) (vs\<lparr>v_loss := loss'\<rparr>)"
    using follows_stamp [OF q4, of n "vs\<lparr>v_loss := loss'\<rparr>"]
    by (simp add: follows_loss_source)
  show ?thesis
  proof (cases ierr)
    case (Some x)
    with eq have "h = stamp vs evs1 @ stamp vs imgs" "vs' = vs" by auto
    then show ?thesis using follows_append [OF f1 f2] by simp
  next
    case None
    note i = this
    show ?thesis
    proof (cases serr)
      case (Some x)
      with eq i have "h = stamp vs evs1 @ stamp vs (imgs @ sevs)" "vs' = vs" by auto
      then show ?thesis using follows_append [OF f1 f3] by simp
    next
      case None
      with eq i have "h = stamp vs evs1 @ stamp vs (imgs @ sevs)
                        @ stamp (vs\<lparr>v_loss := loss'\<rparr>) evs2"
        and "vs' = vs\<lparr>v_loss := loss'\<rparr>" by auto
      then show ?thesis using follows_append [OF f1 follows_append [OF f3 f4]] by simp
    qed
  qed
qed

lemma train_batches_follows:
  "train_batches args obs epoch se n i bsx vs = (h, vs', err)
   \<Longrightarrow> follows (batch_size args) vs h vs'"
proof (induction args obs epoch se n i bsx vs arbitrary: h vs' err rule: train_batches.induct)
  case (1 args obs epoch start_epoch n i vs)
  then show ?case by (simp add: follows_Nil)
next
  case (2 args obs epoch start_epoch n i b bs vs)
  show ?case
  proof (cases "n * batch_size args = 0 \<or> resume_guard args n (v_global_step vs) epoch start_epoch")
    case True
    then have "h = []" "vs' = vs" using "2.prems" by (auto split: if_splits)
    then show ?thesis by (simp add: follows_Nil)
  next
    case False
    obtain acts ld where ts: "train_step args epoch i n (obs i) = (acts, ld)"
      by (cases "train_step args epoch i n (obs i)")
    define vs1 where "vs1 = vs\<lparr>v_global_step := v_global_step vs + batch_size args\<rparr>"
    define hs :: "'a history" where "hs = stamp vs (map Act acts @ [Exp_loss_add ld]) @ [(Global_step_add (batch_size args), vs1)]
       @ (if int i mod 10 = 0 then stamp vs1 [Log_lr (truthy (lambda_adversarial args)), Log_train_metrics] else [])"
    have a1: "follows (batch_size args) vs (stamp vs (map Act acts @ [Exp_loss_add ld])) vs"
      by (rule follows_stamp) (simp add: still_acts)
    have a2: "follows (batch_size args) vs [(Global_step_add (batch_size args), vs1)] vs1"
      unfolding vs1_def by (rule follows_step)
    have a3: "follows (batch_size args) vs1
                (if int i mod 10 = 0
                 then stamp vs1 [Log_lr (truthy (lambda_adversarial args)), Log_train_metrics]
                 else []) vs1"
      by (simp add: follows_Nil follows_stamp)
    have fhs: "follows (batch_size args) vs hs vs1"
      unfolding hs_def using follows_append [OF a1 follows_append [OF a2 a3]] by simp
    show ?thesis
    proof (cases "log_interval args = 0")
      case True
      then have "h = hs" "vs' = vs1" using "2.prems" False ts
        by (auto simp: Let_def vs1_def hs_def)
      then show ?thesis using fhs by simp
    next
      case li: False
      obtain imgs ierr where ls: "(if int i mod log_interval args = 0
                          then log_samples Train (sample_range args) (source b) (Some (target b))
                                 (g_output (obs i)) (filename b)
                          else ([], None)) = (imgs, ierr)"
        by (cases "(if int i mod log_interval args = 0
                          then log_samples Train (sample_range args) (source b) (Some (target b))
                                 (g_output (obs i)) (filename b)
                          else ([], None))")
      have qi: "list_all still imgs"
        using ls still_log_samples by (auto split: if_splits)
      have fi: "follows (batch_size args) vs1 (stamp vs1 imgs) vs1"
        using follows_stamp [OF qi] .
      show ?thesis
      proof (cases ierr)
        case (Some x)
        then have "h = hs @ stamp vs1 imgs" "vs' = vs1" using "2.prems" False ts li ls
          by (auto simp: Let_def vs1_def hs_def)
        then show ?thesis using follows_append [OF fhs fi] by simp
      next
        case None
        obtain h2 vs2 err2 where rec: "train_batches args obs epoch start_epoch n (Suc i) bs vs1 = (h2, vs2, err2)"
          by (cases "train_batches args obs epoch start_epoch n (Suc i) bs vs1")
        have eqs: "h = hs @ stamp vs1 imgs @ h2" "vs' = vs2" using "2.prems" False ts li ls None rec
          by (auto simp: Let_def vs1_def [symmetric] hs_def)
        have IH: "follows (batch_size args) vs1 h2 vs2"
          using "2.IH" [OF _ _ ts [symmetric] vs1_def refl refl _ ls [symmetric] None rec] False li by simp
        show ?thesis using eqs follows_append [OF fhs follows_append [OF fi IH]] by simp
      qed
    qed
  qed
qed

lemma run_val_follows:
  "run_val args ev epoch loader vs = (h, vs', err) \<Longrightarrow> follows n vs h vs'"
  by (auto simp: run_val_def follows_Nil val_pass_follows split: option.splits list.splits)

lemma run_test_follows:
  "run_test args ev loader vs = (h, vs', err) \<Longrightarrow> follows n vs h vs'"
  by (auto simp: run_test_def follows_Nil test_pass_follows split: option.splits list.splits)

lemma follows_eval_mode: "follows n vs [(Eval_mode, vs)] vs"
  by (simp add: follows_def)

lemma val_and_test_follows:
  assumes "val_and_test args data orc epoch vs = (h, vs', err)"
  shows "follows n vs h vs'"
proof (cases "val_test_epoch_interval args = 0 \<or> epoch mod val_test_epoch_interval args \<noteq> 0")
  case True
  then have "h = []" "vs' = vs" using assms by (auto simp: val_and_test_def split: if_splits)
  then show ?thesis by (simp add: follows_Nil)
next
  case False
  obtain hv vs1 err1 where rv:
    "run_val args (evaluator_at orc epoch) epoch (val_loader data) vs = (hv, vs1, err1)"
    by (cases "run_val args (evaluator_at orc epoch) epoch (val_loader data) vs")
  obtain ht vs2 err2 where rt:
    "run_test args (evaluator_at orc epoch) (test_loader data) vs1 = (ht, vs2, err2)"
    by (cases "run_test args (evaluator_at orc epoch) (test_loader data) vs1")
  have fv: "follows n vs hv vs1" using run_val_follows [OF rv] .
  have ft: "follows n vs1 ht vs2" using run_test_follows [OF rt] .
  show ?thesis
  proof (cases err1)
    case (Some x)
    then have "h = [(Eval_mode, vs)] @ hv" "vs' = vs1"
      using assms False rv by (auto simp: val_and_test_def)
    then show ?thesis using follows_append [OF follows_eval_mode fv] by simp
  next
    case None
    then have "h = [(Eval_mode, vs)] @ hv @ ht" "vs' = vs2"
      using assms False rv rt by (auto simp: val_and_test_def)
    then show ?thesis
      using follows_append [OF follows_eval_mode follows_append [OF fv ft]] by simp
  qed
qed

lemma epoch_body_follows:
  assumes "epoch_body args data orc se epoch vs0 = (h, vs', err)"
  shows "follows (batch_size args) vs0 h vs'
         \<and> (\<exists>vs1 h'. h = (Bind_epoch epoch, vs1) # h')"
proof -
  define vs where "vs = vs0\<lparr>v_epoch := Some epoch\<rparr>"
  obtain h1 vs1 err1 where tb:
    "train_batches args (step_obs_at orc epoch) epoch se
       (int (length (train_loader data))) 0 (train_loader data) vs = (h1, vs1, err1)"
    by (cases "train_batches args (step_obs_at orc epoch) epoch se
       (int (length (train_loader data))) 0 (train_loader data) vs")
  define c where "c = \<lparr>sw_epoch = epoch, sw_global_step = v_global_step vs1,
                        sw_loss = v_loss vs1, sw_is_min = None, sw_tag = Some Latest\<rparr>"
  obtain h3 vs3 err3 where vt: "val_and_test args data orc epoch vs1 = (h3, vs3, err3)"
    by (cases "val_and_test args data orc epoch vs1")
  have f0: "follows (batch_size args) vs0 (stamp vs [Bind_epoch epoch, Train_mode]) vs"
    unfolding vs_def by (rule follows_bind)
  have f1: "follows (batch_size args) vs h1 vs1" using train_batches_follows [OF tb] .
  have f2: "follows (batch_size args) vs1 (stamp vs1 [Save_weights c]) vs1"
    by (rule follows_stamp) simp
  have f3: "follows (batch_size args) vs1 h3 vs3" using val_and_test_follows [OF vt] .
  show ?thesis
  proof (cases err1)
    case (Some x)
    then have e: "h = stamp vs [Bind_epoch epoch, Train_mode] @ h1" "vs' = vs1"
      using assms tb by (auto simp: epoch_body_def Let_def vs_def [symmetric])
    then show ?thesis using follows_append [OF f0 f1] by (simp add: stamp_def)
  next
    case None
    then have e: "h = stamp vs [Bind_epoch epoch, Train_mode] @ h1 @ stamp vs1 [Save_weights c] @ h3"
      "vs' = vs3"
      using assms tb vt by (auto simp: epoch_body_def Let_def vs_def [symmetric] c_def)
    then show ?thesis
      using follows_append [OF f0 follows_append [OF f1 follows_append [OF f2 f3]]]
      by (simp add: stamp_def)
  qed
qed

lemma epochs_loop_follows:
  "epochs_loop args data orc se es vs = (h, vs', err)
   \<Longrightarrow> follows (batch_size args) vs h vs'
       \<and> (h \<noteq> [] \<longrightarrow> (\<exists>e vs1 h'. h = (Bind_epoch e, vs1) # h'))"
proof (induction es arbitrary: vs h vs' err)
  case Nil
  then show ?case by (simp add: follows_Nil)
next
  case (Cons e es)
  obtain h1 vs1 err1 where eb: "epoch_body args data orc se e vs = (h1, vs1, err1)"
    by (cases "epoch_body args data orc se e vs")
  obtain h2 vs2 err2 where el: "epochs_loop args data orc se es vs1 = (h2, vs2, err2)"
    by (cases "epochs_loop args data orc se es vs1")
  note f1 = epoch_body_follows [OF eb]
  note f2 = Cons.IH [OF el]
  show ?case
  proof (cases err1)
    case (Some x)
    then have "h = h1" "vs' = vs1" using Cons.prems eb by auto
    then show ?thesis using f1 by auto
  next
    case None
    then have "h = h1 @ h2" "vs' = vs2" using Cons.prems eb el by auto
    then show ?thesis using f1 f2 follows_append [of "batch_size args" vs h1 vs1 h2 vs2] by auto
  qed
qed

lemma current_epoch_Some: "current_epoch (Some x) h \<noteq> None"
  by (induction "Some x" h arbitrary: x rule: current_epoch.induct) simp_all

text \<open>
  C8, as the spec states it, fails. In the run of two epochs over three samples in
  batches of two, a signal that arrives before the loop has bound \<^verbatim>\<open>epoch\<close> makes the
  handler raise UnboundLocalError and nothing is written. After 50 events epoch 0 is
  complete (both its steps are done and its "latest" checkpoint is written); a signal
  during the first step of epoch 1 makes the handler save \<^verbatim>\<open>epoch = 1\<close>, the epoch in
  progress of which no step is complete, with the \<^verbatim>\<open>global_step = 4\<close> of the last step
  of epoch 0.
\<close>

theorem C8_interrupt_names_epoch_in_progress:
  "on_interrupt (vars_after fresh (fst (train_main args3 data3 collab3 None 0 1)) 0)
     = Inl UnboundLocalError
   \<and> current_epoch None (take 50 (fst (train_main args3 data3 collab3 None 0 1))) = Some 0
   \<and> steps_done (take 50 (fst (train_main args3 data3 collab3 None 0 1))) = 2
   \<and> save_calls (take 50 (fst (train_main args3 data3 collab3 None 0 1)))
       = [\<lparr>sw_epoch = 0, sw_global_step = 4, sw_loss = 1, sw_is_min = None,
           sw_tag = Some Latest\<rparr>]
   \<and> steps_done (take 60 (fst (train_main args3 data3 collab3 None 0 1))) = 2
   \<and> on_interrupt (vars_after fresh (fst (train_main args3 data3 collab3 None 0 1)) 60)
       = Inr \<lparr>sw_epoch = 1, sw_global_step = 4, sw_loss = 1, sw_is_min = Some True,
              sw_tag = None\<rparr>"
  by code_simp

text \<open>
  C8, amended: a signal that interrupts the training loop at any point after the loop
  has bound \<^verbatim>\<open>epoch\<close> triggers exactly one checkpoint write. The write names the epoch
  of the iteration in progress and the \<^verbatim>\<open>global_step\<close> of the most recently completed
  step, which is the step count on entry plus \<^verbatim>\<open>args.batch_size\<close> for every step
  completed since; the events after the signal, the rest of the step in flight among
  them, do not happen.
\<close>

theorem C8_interrupt_writes_one_checkpoint:
  assumes "train_main args data orc loaded_step loaded_epoch loaded_loss = (h, vs', err)"
    and "0 < k" and "k \<le> length h"
  shows "current_epoch None (take k h) \<noteq> None
         \<and> interrupt_at
             \<lparr>v_epoch = None,
              v_global_step = reconstruct_global_step loaded_step loaded_epoch
                                (int (length (train_loader data))) (batch_size args),
              v_loss = loaded_loss\<rparr> h k
           = Inr (take k h,
                  [\<lparr>sw_epoch = the (current_epoch None (take k h)),
                    sw_global_step =
                      reconstruct_global_step loaded_step loaded_epoch
                        (int (length (train_loader data))) (batch_size args)
                      + batch_size args * int (steps_done (take k h)),
                    sw_loss = v_loss (snd (h ! (k - 1))),
                    sw_is_min = Some True, sw_tag = None\<rparr>])"
proof -
  define g0 where "g0 = reconstruct_global_step loaded_step loaded_epoch
                          (int (length (train_loader data))) (batch_size args)"
  define vs0 where "vs0 = \<lparr>v_epoch = None, v_global_step = g0, v_loss = loaded_loss\<rparr>"
  have ne: "h \<noteq> []" using assms(2,3) by auto
  obtain se where el:
    "epochs_loop args data orc se [se .. num_epochs args - 1] vs0 = (h, vs', err)"
    using assms(1) ne
    by (auto simp: train_main_def resume_cursor_def Let_def g0_def vs0_def split: if_splits)
  note F = epochs_loop_follows [OF el]
  from F ne obtain e vs1 h' where hd: "h = (Bind_epoch e, vs1) # h'" by blast
  have co: "coherent (batch_size args) g0 None (take k h)"
    using F coherent_take [of "batch_size args" g0 None h k] by (simp add: follows_def vs0_def)
  have tk: "take k h \<noteq> []" using assms(2) ne by simp
  have ce: "current_epoch None (take k h) \<noteq> None"
  proof -
    obtain j where "k = Suc j" using assms(2) by (cases k) auto
    then have "current_epoch None (take k h) = current_epoch (Some e) (take j h')"
      using hd by simp
    then show ?thesis using current_epoch_Some [of e "take j h'"] by simp
  qed
  have la: "last (take k h) = h ! (k - 1)"
    using assms(2,3) tk by (simp add: last_conv_nth min_def)
  have va: "vars_after vs0 h k = snd (h ! (k - 1))"
    using tk la by (simp add: vars_after_def)
  note L = coherent_last [OF co tk]
  have gs: "v_global_step (snd (h ! (k - 1))) = g0 + batch_size args * int (steps_done (take k h))"
    using L la by simp
  have ep: "v_epoch (snd (h ! (k - 1))) = current_epoch None (take k h)"
    using L la by simp
  obtain x where x: "current_epoch None (take k h) = Some x" using ce by auto
  have "interrupt_at vs0 h k
          = Inr (take k h,
                 [\<lparr>sw_epoch = x, sw_global_step = g0 + batch_size args * int (steps_done (take k h)),
                   sw_loss = v_loss (snd (h ! (k - 1))),
                   sw_is_min = Some True, sw_tag = None\<rparr>])"
    using va gs ep x by (simp add: interrupt_at_def on_interrupt_def save_weights_def)
  then show ?thesis using ce x unfolding vs0_def g0_def by simp
qed

theorem C8_interrupt_writes_one_checkpoint_witness:
  "(0::nat) < 75 \<and> 75 \<le> length (fst (train_main args3 data3 collab3 None 0 1))
   \<and> current_epoch None (take 75 (fst (train_main args3 data3 collab3 None 0 1))) = Some 1
   \<and> steps_done (take 75 (fst (train_main args3 data3 collab3 None 0 1))) = 3
   \<and> interrupt_at fresh (fst (train_main args3 data3 collab3 None 0 1)) 75
       = Inr (take 75 (fst (train_main args3 data3 collab3 None 0 1)),
              [\<lparr>sw_epoch = 1, sw_global_step = 6, sw_loss = 1, sw_is_min = Some True,
                sw_tag = None\<rparr>])"
proof -
  have p: "train_main args3 data3 collab3 None 0 1
             = (fst (train_main args3 data3 collab3 None 0 1),
                fst (snd (train_main args3 data3 collab3 None 0 1)),
                snd (snd (train_main args3 data3 collab3 None 0 1)))"
    by simp
  have k: "75 \<le> length (fst (train_main args3 data3 collab3 None 0 1))" by code_simp
  have c: "current_epoch None (take 75 (fst (train_main args3 data3 collab3 None 0 1))) = Some 1"
    by code_simp
  have s: "steps_done (take 75 (fst (train_main args3 data3 collab3 None 0 1))) = 3"
    by code_simp
  have l: "v_loss (snd (fst (train_main args3 data3 collab3 None 0 1) ! (75 - 1))) = 1"
    by code_simp
  have g: "reconstruct_global_step None 0 (int (length (train_loader data3))) (batch_size args3) = 0"
    by code_simp
  have b: "batch_size args3 = 2" by code_simp
  have f: "fresh = \<lparr>v_epoch = None, v_global_step = 0, v_loss = 1\<rparr>" by (simp add: fresh_def)
  from C8_interrupt_writes_one_checkpoint [OF p _ k] k c s l g b f show ?thesis by simp
qed
end
